theory Spec2Isabelle
  imports Main "HOL-Library.Char_ord" "HOL-Library.List_Lexorder"
begin

section \<open>Clock times as strings\<close>

text \<open>
  Clock times travel through the application as strings (\<^verbatim>\<open>"HH:MM"\<close>). Both
  \<^verbatim>\<open>BookAppointment.tsx\<close> and the doctor dashboard carry the same two helpers:
  \<^verbatim>\<open>
  const toMinutes = (t: string) => { const [h,m] = t.split(':').map(Number); return h*60+m; };
  const toHHMM = (mins: number) => {
    const h = Math.floor(mins / 60).toString().padStart(2, '0');
    const m = (mins % 60).toString().padStart(2, '0');
    return `${h}:${m}`;
  };
  \<close>
  Minute counts are natural numbers here; \<open>None\<close> stands for JavaScript's \<^verbatim>\<open>NaN\<close>.
  \<open>Number\<close> is modelled on plain decimal digit strings: the fields of the texts
  \<^verbatim>\<open>HH:MM\<close> and \<^verbatim>\<open>HH:MM:SS\<close> that the time columns, the time inputs and
  \<open>toHHMM\<close> produce (the empty string is 0 as in JavaScript). Every other text counts
  as \<^verbatim>\<open>NaN\<close> here; signs, fractions, exponents and blanks are outside the model.
\<close>

definition digit_char :: "nat \<Rightarrow> char" where
  "digit_char d = char_of (48 + d)"

fun toString :: "nat \<Rightarrow> string" where
  "toString n = (if n < 10 then [digit_char n] else toString (n div 10) @ [digit_char (n mod 10)])"

declare toString.simps [simp del]

definition padStart :: "nat \<Rightarrow> char \<Rightarrow> string \<Rightarrow> string" where
  "padStart n c s = replicate (n - length s) c @ s"

definition toHHMM :: "nat \<Rightarrow> string" where
  "toHHMM mins =
     padStart 2 (CHR ''0'') (toString (mins div 60)) @ '':'' @
     padStart 2 (CHR ''0'') (toString (mins mod 60))"

definition is_digit :: "char \<Rightarrow> bool" where
  "is_digit c = (48 \<le> (of_char c :: nat) \<and> (of_char c :: nat) \<le> 57)"

definition digit_val :: "char \<Rightarrow> nat" where
  "digit_val c = of_char c - 48"

definition Number :: "string \<Rightarrow> nat option" where
  "Number s =
     (if list_all is_digit s then Some (foldl (\<lambda>a c. 10 * a + digit_val c) 0 s) else None)"

fun split_colon :: "string \<Rightarrow> string list" where
  "split_colon [] = [[]]"
| "split_colon (c # cs) =
     (if c = CHR '':'' then [] # split_colon cs
      else (case split_colon cs of
              [] \<Rightarrow> [[c]]
            | p # ps \<Rightarrow> (c # p) # ps))"

definition toMinutes :: "string \<Rightarrow> nat option" where
  "toMinutes t =
     (case map Number (split_colon t) of
        Some h # Some m # _ \<Rightarrow> Some (h * 60 + m)
      | _ \<Rightarrow> None)"

text \<open>
  The loop \<^verbatim>\<open>for (let m = toMinutes(start); m < toMinutes(end); m += 30)\<close>: it runs
  no iteration when either bound is \<^verbatim>\<open>NaN\<close>.
\<close>

function slot_minutes :: "nat \<Rightarrow> nat \<Rightarrow> nat list" where
  "slot_minutes m e = (if m < e then m # slot_minutes (m + 30) e else [])"
  by pat_completeness auto
termination
  by (relation "measure (\<lambda>(m, e). e - m)") auto

declare slot_minutes.simps [simp del]

definition window_minutes :: "string \<Rightarrow> string \<Rightarrow> nat list" where
  "window_minutes start end_t =
     (case (toMinutes start, toMinutes end_t) of
        (Some s, Some e) \<Rightarrow> slot_minutes s e
      | _ \<Rightarrow> [])"

section \<open>The data store\<close>

datatype booking_status = Pending | Confirmed | Cancelled | Completed

datatype payment_status = PaymentPending | Paid | Failed

datatype membership_type = Basic | Premium

record booking =
  booking_id :: string
  user_id :: string
  doctor_id :: string
  appointment_date :: string
  appointment_time :: string
  status :: booking_status
  payment_status :: payment_status
  consultation_fee :: int
  booking_fee :: int
  total_amount :: int
  patient_notes :: string
  updated_at :: string

record doctor_schedule =
  schedule_doctor_id :: string
  day_of_week :: nat
  start_time :: string
  end_time :: string
  is_available :: bool

record membership =
  member_user_id :: string
  membership_type :: membership_type
  free_bookings_remaining :: "int option"
  member_updated_at :: string

record store =
  bookings :: "booking list"
  doctor_schedules :: "doctor_schedule list"
  memberships :: "membership list"

text \<open>
  Every request to the store answers \<^verbatim>\<open>{ data, error }\<close>; the client library does
  not throw. A request that answers with an error has no effect on the store. Which
  requests fail is part of the environment of each operation.
\<close>

datatype request =
    SelectSchedules | SelectBookings | SelectConflict | SelectMembership
  | InsertBooking | UpdateMembership | UpdateBooking
  | DeleteSchedules | UpsertSchedules

type_synonym faults = "request \<Rightarrow> bool"

definition no_faults :: faults where
  "no_faults = (\<lambda>_. False)"

section \<open>Slot derivation (\<^verbatim>\<open>loadAvailability\<close>)\<close>

record TimeSlot =
  time :: string
  available :: bool

text \<open>
  \<^verbatim>\<open>new Map<string, TimeSlot>()\<close> with \<^verbatim>\<open>set\<close>: an existing key keeps its
  position and takes the new value, a new key goes to the end. \<^verbatim>\<open>values()\<close> lists
  the values in that order.
\<close>

fun Map_set :: "(string \<times> 'v) list \<Rightarrow> string \<Rightarrow> 'v \<Rightarrow> (string \<times> 'v) list" where
  "Map_set [] k v = [(k, v)]"
| "Map_set ((k', v') # kvs) k v =
     (if k' = k then (k, v) # kvs else (k', v') # Map_set kvs k v)"

definition slot_entries :: "TimeSlot list \<Rightarrow> (string \<times> TimeSlot) list" where
  "slot_entries slots = foldl (\<lambda>u s. Map_set u (time s) s) [] slots"

definition unique_slots :: "TimeSlot list \<Rightarrow> TimeSlot list" where
  "unique_slots slots = map snd (slot_entries slots)"

definition window_slots :: "string list \<Rightarrow> doctor_schedule \<Rightarrow> TimeSlot list" where
  "window_slots takenTimes s =
     map (\<lambda>m. \<lparr>time = toHHMM m, available = toHHMM m \<notin> set takenTimes\<rparr>)
       (window_minutes (start_time s) (end_time s))"

text \<open>
  \<open>getDay\<close> stands for \<^verbatim>\<open>new Date(selectedDate).getDay()\<close> (0 = Sunday). The
  comparator \<^verbatim>\<open>a.time.localeCompare(b.time)\<close> is taken as the lexicographic order on
  characters, and the sort is stable.
\<close>

definition loadAvailability ::
  "faults \<Rightarrow> (string \<Rightarrow> nat) \<Rightarrow> store \<Rightarrow> string option \<Rightarrow> string \<Rightarrow> TimeSlot list" where
  "loadAvailability flt getDay db doctorId selectedDate =
     (case doctorId of
        None \<Rightarrow> []
      | Some did \<Rightarrow>
          if did = [] \<or> selectedDate = [] then []
          else if flt SelectSchedules then []
          else if flt SelectBookings then []
          else
            let dayOfWeek = getDay selectedDate;
                schedules = filter (\<lambda>s. schedule_doctor_id s = did
                                      \<and> day_of_week s = dayOfWeek \<and> is_available s)
                              (doctor_schedules db);
                bookings' = filter (\<lambda>b. doctor_id b = did
                                      \<and> appointment_date b = selectedDate
                                      \<and> status b \<noteq> Cancelled)
                              (bookings db);
                takenTimes = map appointment_time bookings';
                slots = concat (map (window_slots takenTimes) schedules)
            in unique_slots (sort_key time slots))"

text \<open>
  The weekday of the request, lines 69-71 of \<^verbatim>\<open>BookAppointment.tsx\<close>:
  \<^verbatim>\<open>
  const dateObj = new Date(selectedDate);
  const jsDay = dateObj.getDay();
  const dayOfWeek = jsDay; // 0=Sun ... 6=Sat
  \<close>
  \<^verbatim>\<open>new Date("YYYY-MM-DD")\<close> is midnight UTC of that date, and \<^verbatim>\<open>getDay()\<close> is the weekday
  of that instant in the browser's time zone. \<open>tz\<close> is the offset of the time zone in
  minutes east of UTC. \<open>parse_iso_date\<close> reads the calendar dates that the date input
  produces; \<open>days_from_civil\<close> counts the days since 1970-01-01, a Thursday. For any other
  text the date is invalid and \<^verbatim>\<open>getDay()\<close> is \<^verbatim>\<open>NaN\<close>, written 7 here, which is no
  weekday.
\<close>

definition is_leap :: "nat \<Rightarrow> bool" where
  "is_leap y = (y mod 4 = 0 \<and> (y mod 400 = 0 \<or> y mod 100 \<noteq> 0))"

definition days_in_month :: "nat \<Rightarrow> nat \<Rightarrow> nat" where
  "days_in_month y m =
     (if m = 2 then (if is_leap y then 29 else 28)
      else if m = 4 \<or> m = 6 \<or> m = 9 \<or> m = 11 then 30 else 31)"

definition parse_iso_date :: "string \<Rightarrow> (nat \<times> nat \<times> nat) option" where
  "parse_iso_date s =
     (if length s = 10 \<and> s ! 4 = CHR ''-'' \<and> s ! 7 = CHR ''-''
      then (case (Number (take 4 s), Number (take 2 (drop 5 s)), Number (drop 8 s)) of
              (Some y, Some m, Some d) \<Rightarrow>
                if 1 \<le> m \<and> m \<le> 12 \<and> 1 \<le> d \<and> d \<le> days_in_month y m then Some (y, m, d) else None
            | _ \<Rightarrow> None)
      else None)"

definition days_from_civil :: "nat \<Rightarrow> nat \<Rightarrow> nat \<Rightarrow> int" where
  "days_from_civil y m d =
     (let y' = (if m \<le> 2 then int y - 1 else int y);
          era = y' div 400;
          yoe = y' - era * 400;
          mp = (int m + 9) mod 12;
          doy = (153 * mp + 2) div 5 + int d - 1;
          doe = yoe * 365 + yoe div 4 - yoe div 100 + doy
      in era * 146097 + doe - 719468)"

definition Date_getDay :: "int \<Rightarrow> string \<Rightarrow> nat" where
  "Date_getDay tz s =
     (case parse_iso_date s of
        None \<Rightarrow> 7
      | Some (y, m, d) \<Rightarrow> nat ((days_from_civil y m d + tz div 1440 + 4) mod 7))"

text \<open>
  The weekday of a calendar date as the specification means it (0 = Sunday), for comparison
  with \<open>Date_getDay\<close>.
\<close>

definition spec_weekday :: "string \<Rightarrow> nat option" where
  "spec_weekday s =
     (case parse_iso_date s of
        None \<Rightarrow> None
      | Some (y, m, d) \<Rightarrow> Some (nat ((days_from_civil y m d + 4) mod 7)))"

section \<open>Saving the weekly schedule (\<^verbatim>\<open>saveSchedule\<close>)\<close>

text \<open>
  \<open>selected\<close> is the \<^verbatim>\<open>Set<string>\<close> of a day, listed in insertion order;
  \<^verbatim>\<open>Array.from(state.selected.values()).sort()\<close> sorts the strings by code units.
\<close>

record DayState =
  day_open :: string
  day_close :: string
  selected :: "string list"

datatype save_outcome = NoDoctorProfile | ScheduleLive | SaveFailed

definition day_row :: "string \<Rightarrow> nat \<Rightarrow> DayState \<Rightarrow> doctor_schedule option" where
  "day_row doctorId d state =
     (case sort (selected state) of
        [] \<Rightarrow> None
      | start # rest \<Rightarrow>
          let endLast = last (start # rest) in
          (case toMinutes endLast of
             None \<Rightarrow> None
           | Some l \<Rightarrow>
               let end_t = toHHMM (l + 30) in
               (case (toMinutes end_t, toMinutes start) of
                  (Some e, Some s) \<Rightarrow>
                    if e > s
                    then Some \<lparr>schedule_doctor_id = doctorId, day_of_week = d,
                               start_time = start, end_time = end_t, is_available = True\<rparr>
                    else None
                | _ \<Rightarrow> None)))"

definition day_rows :: "string \<Rightarrow> (nat \<Rightarrow> DayState option) \<Rightarrow> nat \<Rightarrow> doctor_schedule list" where
  "day_rows doctorId dayStates d =
     (case dayStates d of
        None \<Rightarrow> []
      | Some state \<Rightarrow> (case day_row doctorId d state of None \<Rightarrow> [] | Some r \<Rightarrow> [r]))"

definition schedule_rows :: "string \<Rightarrow> (nat \<Rightarrow> DayState option) \<Rightarrow> doctor_schedule list" where
  "schedule_rows doctorId dayStates = concat (map (day_rows doctorId dayStates) [0..<7])"

text \<open>
  \<^verbatim>\<open>upsert(rows, { onConflict: 'doctor_id,day_of_week' })\<close>: a row whose key is in the
  table replaces the stored one, any other row is added.
\<close>

definition same_key :: "doctor_schedule \<Rightarrow> doctor_schedule \<Rightarrow> bool" where
  "same_key x r = (schedule_doctor_id x = schedule_doctor_id r \<and> day_of_week x = day_of_week r)"

definition upsert_row :: "doctor_schedule list \<Rightarrow> doctor_schedule \<Rightarrow> doctor_schedule list" where
  "upsert_row tbl r =
     (if list_ex (\<lambda>x. same_key x r) tbl
      then map (\<lambda>x. if same_key x r then r else x) tbl
      else tbl @ [r])"

definition upsert :: "doctor_schedule list \<Rightarrow> doctor_schedule list \<Rightarrow> doctor_schedule list" where
  "upsert tbl rows = foldl upsert_row tbl rows"

definition getSchedules :: "store \<Rightarrow> string \<Rightarrow> doctor_schedule list" where
  "getSchedules db doctorId = filter (\<lambda>r. schedule_doctor_id r = doctorId) (doctor_schedules db)"

text \<open>
  \<open>doctorInfo\<close> is the id of the loaded doctor profile, \<open>ensured\<close> the id that
  \<^verbatim>\<open>ensureDoctorProfile()\<close> finds when none is loaded. The answer of the delete request
  is not inspected by the source; the answer of the upsert is.
\<close>

definition saveSchedule ::
  "faults \<Rightarrow> store \<Rightarrow> string option \<Rightarrow> string option \<Rightarrow> (nat \<Rightarrow> DayState option)
     \<Rightarrow> save_outcome \<times> store" where
  "saveSchedule flt db doctorInfo ensured dayStates =
     (let doctorId = (case doctorInfo of
                        Some i \<Rightarrow> if i = [] then ensured else Some i
                      | None \<Rightarrow> ensured)
      in case doctorId of
           None \<Rightarrow> (NoDoctorProfile, db)
         | Some did \<Rightarrow>
             if did = [] then (NoDoctorProfile, db)
             else
               let db1 = (if flt DeleteSchedules then db
                          else db\<lparr>doctor_schedules :=
                                    filter (\<lambda>r. schedule_doctor_id r \<noteq> did) (doctor_schedules db)\<rparr>);
                   rows = schedule_rows did dayStates
               in if rows \<noteq> [] then
                    (if flt UpsertSchedules then (SaveFailed, db1)
                     else (ScheduleLive,
                           db1\<lparr>doctor_schedules := upsert (doctor_schedules db1) rows\<rparr>))
                  else (ScheduleLive, db1))"

section \<open>Conflict check of the bookings repository (\<^verbatim>\<open>BookingsRepo.hasConflict\<close>)\<close>

text \<open>
  The query carries \<^verbatim>\<open>.limit(1)\<close> and no status filter: the store answers with the
  first matching row, in table order; the status is looked at afterwards, on that row.
  \<open>None\<close> is the thrown error of a failed query.
\<close>

definition hasConflict :: "faults \<Rightarrow> store \<Rightarrow> string \<Rightarrow> string \<Rightarrow> string \<Rightarrow> bool option" where
  "hasConflict flt db doctorId date time_t =
     (if flt SelectConflict then None
      else
        let data = take 1 (filter (\<lambda>b. doctor_id b = doctorId \<and> appointment_date b = date
                                      \<and> appointment_time b = time_t) (bookings db));
            conflict = find (\<lambda>b. status b \<noteq> Cancelled) data
        in Some (conflict \<noteq> None))"

section \<open>Booking and payment (\<^verbatim>\<open>handleBooking\<close>)\<close>

record doctor =
  doctor_row_id :: string
  doctor_consultation_fee :: int

datatype payment_method = medical_aid | cash | card

fun method_text :: "payment_method \<Rightarrow> string" where
  "method_text medical_aid = ''medical aid''"
| "method_text cash = ''cash''"
| "method_text card = ''card''"

definition notes_text :: "string \<Rightarrow> payment_method \<Rightarrow> string" where
  "notes_text patientNotes paymentMethod =
     patientNotes @ [CHR 0x0A] @ ''Payment method: '' @ method_text paymentMethod"

datatype booking_outcome =
    MissingFields
  | Redirected string
  | SlotUnavailable
  | BookingCreatedPaymentPending string
  | BookingFailed

text \<open>\<^verbatim>\<open>.single()\<close> answers with the row when exactly one row matches, and with an error otherwise.\<close>

fun single :: "'a list \<Rightarrow> 'a option" where
  "single [x] = Some x"
| "single _ = None"

text \<open>
  The final fallback of \<^verbatim>\<open>handleBooking\<close> (its \<^verbatim>\<open>catch\<close> block): conflict query,
  membership query, insert, decrement. Only the answer of the insert is inspected for an
  error. \<open>gen_id\<close> is the store's id generator for the inserted row, which the store
  also stamps with the time \<open>now\<close>.
\<close>

definition active_conflicts :: "store \<Rightarrow> string \<Rightarrow> string \<Rightarrow> string \<Rightarrow> booking list" where
  "active_conflicts db doctorId date time_t =
     filter (\<lambda>b. doctor_id b = doctorId \<and> appointment_date b = date
                \<and> appointment_time b = time_t \<and> status b \<noteq> Cancelled) (bookings db)"

definition direct_booking ::
  "faults \<Rightarrow> (booking list \<Rightarrow> string) \<Rightarrow> string \<Rightarrow> store \<Rightarrow> string \<Rightarrow> doctor \<Rightarrow> string \<Rightarrow> string
     \<Rightarrow> string \<Rightarrow> payment_method \<Rightarrow> booking_outcome \<times> store" where
  "direct_booking flt gen_id now db uid doc selectedDate selectedTime patientNotes paymentMethod =
     (let conflict = (if flt SelectConflict then []
                      else active_conflicts db (doctor_row_id doc) selectedDate selectedTime)
      in if length conflict > 0 then (SlotUnavailable, db)
         else
           let membership = (if flt SelectMembership then None
                             else single (filter (\<lambda>m. member_user_id m = uid) (memberships db)));
               baseBookingFee = 1000;
               credit = (case membership of
                           None \<Rightarrow> 0
                         | Some m \<Rightarrow> (case free_bookings_remaining m of None \<Rightarrow> 0 | Some n \<Rightarrow> n));
               shouldDecrement = (case membership of
                                    None \<Rightarrow> False
                                  | Some m \<Rightarrow> membership_type m = Premium \<and> credit > 0);
               fee = (if shouldDecrement then 0 else baseBookingFee)
           in if flt InsertBooking then (BookingFailed, db)
              else
                let inserted = \<lparr>booking_id = gen_id (bookings db), user_id = uid,
                                 doctor_id = doctor_row_id doc,
                                 appointment_date = selectedDate, appointment_time = selectedTime,
                                 status = Pending, payment_status = PaymentPending,
                                 consultation_fee = doctor_consultation_fee doc,
                                 booking_fee = fee, total_amount = fee,
                                 patient_notes = notes_text patientNotes paymentMethod,
                                 updated_at = now\<rparr>;
                    db1 = db\<lparr>bookings := bookings db @ [inserted]\<rparr>;
                    db2 = (if shouldDecrement \<and> \<not> flt UpdateMembership
                           then db1\<lparr>memberships :=
                                      map (\<lambda>m. if member_user_id m = uid
                                                then m\<lparr>free_bookings_remaining := Some (credit - 1),
                                                       member_updated_at := now\<rparr>
                                                else m) (memberships db1)\<rparr>
                           else db1)
                in (BookingCreatedPaymentPending (booking_id inserted), db2))"

text \<open>
  Modelled from the spec: the remote operation \<^verbatim>\<open>create-booking\<close>, whose server code is
  not among the sources. Section 4.3: (a) active bookings for (doctor, date, time) make it
  fail with \<^verbatim>\<open>SlotUnavailable\<close>; (b) the fee is 1000 unless the membership is premium
  with a free booking remaining, then 0; (c) the booking is inserted as pending/pending with
  \<open>total_amount = booking_fee\<close>; (d) a consumed free credit is decremented.
\<close>

definition create_booking_fn ::
  "(booking list \<Rightarrow> string) \<Rightarrow> string \<Rightarrow> store \<Rightarrow> string \<Rightarrow> doctor \<Rightarrow> string \<Rightarrow> string \<Rightarrow> string
     \<Rightarrow> booking option \<times> store" where
  "create_booking_fn gen_id now db uid doc date time_t notes =
     (if active_conflicts db (doctor_row_id doc) date time_t \<noteq> [] then (None, db)
      else
        let free = (case single (filter (\<lambda>m. member_user_id m = uid) (memberships db)) of
                      Some m \<Rightarrow> (if membership_type m = Premium
                                 then (case free_bookings_remaining m of
                                         None \<Rightarrow> False | Some n \<Rightarrow> n > 0)
                                 else False)
                    | None \<Rightarrow> False);
            fee = (if free then 0 else 1000);
            b = \<lparr>booking_id = gen_id (bookings db), user_id = uid, doctor_id = doctor_row_id doc,
                 appointment_date = date, appointment_time = time_t,
                 status = Pending, payment_status = PaymentPending,
                 consultation_fee = doctor_consultation_fee doc,
                 booking_fee = fee, total_amount = fee,
                 patient_notes = notes, updated_at = now\<rparr>;
            ms = (if free
                  then map (\<lambda>m. if member_user_id m = uid
                                 then m\<lparr>free_bookings_remaining :=
                                          map_option (\<lambda>n. n - 1) (free_bookings_remaining m)\<rparr>
                                 else m) (memberships db)
                  else memberships db)
        in (Some b, db\<lparr>bookings := bookings db @ [b], memberships := ms\<rparr>))"

text \<open>
  The two channels of a remote operation: the client library's \<^verbatim>\<open>functions.invoke\<close>
  and the direct HTTPS \<^verbatim>\<open>fetch\<close>. A channel that is down is a transport failure; a
  channel that is up runs the operation, which may still refuse the request.
\<close>

datatype channel = Primary | Secondary

datatype remote_op = CreateBooking | CreatePayment

datatype pay_reply = PayTransportFailure | PayRejected | PaymentUrl string

record remote_env =
  create_primary_up :: bool
  create_secondary_up :: bool
  pay_primary :: pay_reply
  pay_secondary :: pay_reply
  gen_id :: "booking list \<Rightarrow> string"

fun payment_url :: "pay_reply \<Rightarrow> string option" where
  "payment_url (PaymentUrl u) = (if u = [] then None else Some u)"
| "payment_url _ = None"

text \<open>
  The first block of \<^verbatim>\<open>handleBooking\<close>: \<^verbatim>\<open>create-booking\<close> through the primary
  channel and, \<^verbatim>\<open>if (!booking)\<close>, through the direct one. The attempts are recorded.
\<close>

definition create_booking_attempts ::
  "remote_env \<Rightarrow> string \<Rightarrow> store \<Rightarrow> string \<Rightarrow> doctor \<Rightarrow> string \<Rightarrow> string \<Rightarrow> string
     \<Rightarrow> booking option \<times> store \<times> (remote_op \<times> channel) list" where
  "create_booking_attempts env now db uid d selectedDate selectedTime notes =
     (let (booking, db1) =
            (if create_primary_up env
             then create_booking_fn (gen_id env) now db uid d selectedDate selectedTime notes
             else (None, db))
      in if booking = None
         then (let (booking', db2) =
                     (if create_secondary_up env
                      then create_booking_fn (gen_id env) now db1 uid d selectedDate selectedTime notes
                      else (None, db1))
               in (booking', db2, [(CreateBooking, Primary), (CreateBooking, Secondary)]))
         else (booking, db1, [(CreateBooking, Primary)]))"

text \<open>
  The second block: \<^verbatim>\<open>create-payfast-payment\<close> through the primary channel and,
  \<^verbatim>\<open>if (!paymentUrl)\<close>, through the direct one.
\<close>

definition payment_attempts :: "remote_env \<Rightarrow> string option \<times> (remote_op \<times> channel) list" where
  "payment_attempts env =
     (let paymentUrl = payment_url (pay_primary env)
      in if paymentUrl = None
         then (payment_url (pay_secondary env), [(CreatePayment, Primary), (CreatePayment, Secondary)])
         else (paymentUrl, [(CreatePayment, Primary)]))"

text \<open>
  \<^verbatim>\<open>handleBooking\<close>: without a booking, and without a payment URL, the \<^verbatim>\<open>throw\<close>
  leads into the \<^verbatim>\<open>catch\<close> block, the final fallback \<open>direct_booking\<close>.
\<close>

definition handleBooking ::
  "faults \<Rightarrow> remote_env \<Rightarrow> string \<Rightarrow> store \<Rightarrow> string option \<Rightarrow> doctor option \<Rightarrow> string \<Rightarrow> string
     \<Rightarrow> string \<Rightarrow> payment_method \<Rightarrow> booking_outcome \<times> store \<times> (remote_op \<times> channel) list" where
  "handleBooking flt env now db user doc selectedDate selectedTime patientNotes paymentMethod =
     (case (user, doc) of
        (Some uid, Some d) \<Rightarrow>
          if selectedDate = [] \<or> selectedTime = [] then (MissingFields, db, [])
          else
            let (booking, db2, tr2) =
                   create_booking_attempts env now db uid d selectedDate selectedTime
                     (notes_text patientNotes paymentMethod)
            in (case booking of
                  None \<Rightarrow>
                    (let (out, db3) = direct_booking flt (gen_id env) now db2 uid d
                                        selectedDate selectedTime patientNotes paymentMethod
                     in (out, db3, tr2))
                | Some b \<Rightarrow>
                    let (paymentUrl, tr4) = payment_attempts env
                    in (case paymentUrl of
                          Some url \<Rightarrow> (Redirected url, db2, tr2 @ tr4)
                        | None \<Rightarrow>
                            (let (out, db3) = direct_booking flt (gen_id env) now db2 uid d
                                                selectedDate selectedTime patientNotes paymentMethod
                             in (out, db3, tr2 @ tr4))))
      | _ \<Rightarrow> (MissingFields, db, []))"

section \<open>The generic remote call (\<^verbatim>\<open>invokeWithFallback\<close>)\<close>

text \<open>
  \<^verbatim>\<open>supabase.functions.invoke\<close> answers \<^verbatim>\<open>{ data, error }\<close>; the error is a
  transport failure or the function's own non-2xx answer (a rejection). The fallback
  block throws on a network failure (\<open>FetchThrows\<close>, which also stands for any other
  exception in that block) and otherwise has a response with its \<^verbatim>\<open>ok\<close> flag and
  body. The second component of the result lists the channels tried.
\<close>

datatype invoke_error = TransportFailure | Rejection nat

datatype 'a invoke_reply = InvokeError invoke_error | InvokeData 'a

datatype 'a fetch_reply = FetchThrows | Response bool 'a

definition invokeWithFallback ::
  "'a invoke_reply \<Rightarrow> 'a fetch_reply \<Rightarrow> (invoke_error + 'a) \<times> channel list" where
  "invokeWithFallback primary secondary =
     (case primary of
        InvokeData d \<Rightarrow> (Inr d, [Primary])
      | InvokeError primaryErr \<Rightarrow>
          (case secondary of
             Response True json \<Rightarrow> (Inr json, [Primary, Secondary])
           | _ \<Rightarrow> (Inl primaryErr, [Primary, Secondary])))"

section \<open>Patient cancellation (\<^verbatim>\<open>BookingHistory\<close>)\<close>

datatype cancel_outcome = NotOffered | CancelSuccess | CancelError

text \<open>
  \<^verbatim>\<open>fetchBookings\<close> loads the patient's rows into the page (their display order is
  left out); the page keeps them until the next fetch. The Cancel button of a row is
  rendered under
  \<^verbatim>\<open>booking.status === 'pending' && new Date(booking.appointment_date) > new Date()\<close>,
  evaluated on the row as the page holds it. \<open>parseDate\<close> stands for
  \<^verbatim>\<open>new Date(...)\<close> on the date string, in milliseconds, \<open>None\<close> for an invalid date.
\<close>

definition fetchBookings :: "store \<Rightarrow> string \<Rightarrow> booking list" where
  "fetchBookings db uid = filter (\<lambda>b. user_id b = uid) (bookings db)"

definition cancel_offered :: "(string \<Rightarrow> int option) \<Rightarrow> int \<Rightarrow> booking \<Rightarrow> bool" where
  "cancel_offered parseDate now_ms shown =
     (status shown = Pending \<and>
      (case parseDate (appointment_date shown) of None \<Rightarrow> False | Some t \<Rightarrow> t > now_ms))"

definition cancelBooking :: "faults \<Rightarrow> store \<Rightarrow> string \<Rightarrow> cancel_outcome \<times> store" where
  "cancelBooking flt db bookingId =
     (if flt UpdateBooking then (CancelError, db)
      else (CancelSuccess,
            db\<lparr>bookings := map (\<lambda>b. if booking_id b = bookingId then b\<lparr>status := Cancelled\<rparr> else b)
                              (bookings db)\<rparr>))"

definition click_cancel ::
  "faults \<Rightarrow> (string \<Rightarrow> int option) \<Rightarrow> int \<Rightarrow> booking \<Rightarrow> store \<Rightarrow> cancel_outcome \<times> store" where
  "click_cancel flt parseDate now_ms shown db =
     (if cancel_offered parseDate now_ms shown then cancelBooking flt db (booking_id shown)
      else (NotOffered, db))"

section \<open>Doctor approval and rejection\<close>

text \<open>
  \<open>doctorInfo\<close> is the id of the loaded doctor profile; \<^verbatim>\<open>doctorInfo.id\<close> on a missing
  profile throws inside the \<^verbatim>\<open>try\<close> and nothing is written.
\<close>

definition set_status_if_pending ::
  "booking_status \<Rightarrow> faults \<Rightarrow> string \<Rightarrow> string option \<Rightarrow> store \<Rightarrow> string \<Rightarrow> store" where
  "set_status_if_pending st flt now doctorInfo db bookingId =
     (case doctorInfo of
        None \<Rightarrow> db
      | Some did \<Rightarrow>
          if flt UpdateBooking then db
          else db\<lparr>bookings :=
                    map (\<lambda>b. if booking_id b = bookingId \<and> doctor_id b = did \<and> status b = Pending
                              then b\<lparr>status := st, updated_at := now\<rparr> else b)
                        (bookings db)\<rparr>)"

definition approveBooking :: "faults \<Rightarrow> string \<Rightarrow> string option \<Rightarrow> store \<Rightarrow> string \<Rightarrow> store" where
  "approveBooking = set_status_if_pending Confirmed"

definition rejectBooking :: "faults \<Rightarrow> string \<Rightarrow> string option \<Rightarrow> store \<Rightarrow> string \<Rightarrow> store" where
  "rejectBooking = set_status_if_pending Cancelled"

section \<open>Sample rows\<close>

text \<open>Rows used in the worked examples below.\<close>

definition sample_booking ::
  "string \<Rightarrow> string \<Rightarrow> string \<Rightarrow> string \<Rightarrow> string \<Rightarrow> booking_status \<Rightarrow> booking" where
  "sample_booking i u d date t s =
     \<lparr>booking_id = i, user_id = u, doctor_id = d, appointment_date = date, appointment_time = t,
      status = s, payment_status = PaymentPending, consultation_fee = 50000,
      booking_fee = 1000, total_amount = 1000, patient_notes = [], updated_at = ''t0''\<rparr>"

definition sample_window :: "string \<Rightarrow> nat \<Rightarrow> string \<Rightarrow> string \<Rightarrow> doctor_schedule" where
  "sample_window d w s e =
     \<lparr>schedule_doctor_id = d, day_of_week = w, start_time = s, end_time = e, is_available = True\<rparr>"

definition slots_store :: store where
  "slots_store =
     \<lparr>bookings = [sample_booking ''b1'' ''u1'' ''d1'' ''2030-01-07'' ''08:30'' Pending,
                  sample_booking ''b2'' ''u2'' ''d1'' ''2030-01-07'' ''09:00'' Cancelled,
                  sample_booking ''b3'' ''u3'' ''d1'' ''2030-01-07'' ''09:00:00'' Confirmed,
                  sample_booking ''b4'' ''u4'' ''d1'' ''2030-01-07'' ''8:00'' Pending,
                  sample_booking ''b5'' ''u5'' ''d2'' ''2030-01-07'' ''08:00'' Pending],
      doctor_schedules = [sample_window ''d1'' 1 ''08:30'' ''09:30'',
                          sample_window ''d1'' 1 ''08:00'' ''09:00'',
                          sample_window ''d1'' 2 ''10:00'' ''11:00'',
                          sample_window ''d2'' 1 ''07:00'' ''08:00''],
      memberships = []\<rparr>"

definition sample_dayStates :: "nat \<Rightarrow> DayState option" where
  "sample_dayStates d =
     (if d = 1 then Some \<lparr>day_open = ''08:00'', day_close = ''17:00'',
                          selected = [''09:00'', ''08:00'', ''09:30'']\<rparr>
      else if d < 7 then Some \<lparr>day_open = ''08:00'', day_close = ''17:00'', selected = []\<rparr>
      else None)"

definition old_schedule_store :: store where
  "old_schedule_store =
     \<lparr>bookings = [],
      doctor_schedules = [sample_window ''d1'' 2 ''10:00'' ''11:00'',
                          sample_window ''d2'' 1 ''07:00'' ''08:00''],
      memberships = []\<rparr>"

definition sample_gen_id :: "booking list \<Rightarrow> string" where
  "sample_gen_id bs = ''booking-'' @ toString (length bs)"

definition sample_doctor :: doctor where
  "sample_doctor = \<lparr>doctor_row_id = ''d1'', doctor_consultation_fee = 50000\<rparr>"

definition conflict_store :: store where
  "conflict_store =
     \<lparr>bookings = [sample_booking ''b1'' ''u1'' ''d1'' ''2030-01-07'' ''09:00'' Cancelled,
                  sample_booking ''b2'' ''u2'' ''d1'' ''2030-01-07'' ''09:00'' Confirmed],
      doctor_schedules = [], memberships = []\<rparr>"

definition down_env :: remote_env where
  "down_env = \<lparr>create_primary_up = False, create_secondary_up = False,
                pay_primary = PayTransportFailure, pay_secondary = PayTransportFailure,
                gen_id = sample_gen_id\<rparr>"

definition premium_store :: store where
  "premium_store =
     \<lparr>bookings = [], doctor_schedules = [],
      memberships = [\<lparr>member_user_id = ''u1'', membership_type = Premium,
                       free_bookings_remaining = Some 1, member_updated_at = ''t0''\<rparr>,
                     \<lparr>member_user_id = ''u2'', membership_type = Premium,
                       free_bookings_remaining = Some 5, member_updated_at = ''t0''\<rparr>]\<rparr>"

definition payment_down_env :: remote_env where
  "payment_down_env = \<lparr>create_primary_up = True, create_secondary_up = True,
                pay_primary = PayTransportFailure, pay_secondary = PayRejected,
                gen_id = sample_gen_id\<rparr>"

definition empty_store :: store where
  "empty_store = \<lparr>bookings = [], doctor_schedules = [], memberships = []\<rparr>"

definition pending_store :: store where
  "pending_store =
     \<lparr>bookings = [sample_booking ''b1'' ''u1'' ''d1'' ''2030-01-07'' ''09:00'' Pending],
      doctor_schedules = [], memberships = []\<rparr>"

definition sample_parseDate :: "string \<Rightarrow> int option" where
  "sample_parseDate d = (if d = ''2030-01-07'' then Some 1893974400000 else None)"

definition week_store :: store where
  "week_store =
     \<lparr>bookings = [],
      doctor_schedules = [sample_window ''d1'' 0 ''14:00'' ''15:00'',
                          sample_window ''d1'' 1 ''08:00'' ''09:00''],
      memberships = []\<rparr>"


section \<open>Facts about clock-time strings\<close>

lemma toString_lt10: "n < 10 \<Longrightarrow> toString n = [digit_char n]"
  by (subst toString.simps) simp

lemma toString_lt100: "10 \<le> n \<Longrightarrow> n < 100 \<Longrightarrow> toString n = [digit_char (n div 10), digit_char (n mod 10)]"
  by (subst toString.simps) (simp add: toString_lt10)

lemma of_char_digit_char: "d < 10 \<Longrightarrow> (of_char (digit_char d) :: nat) = 48 + d"
  by (simp add: digit_char_def)

lemma digit_char_less: "a < 10 \<Longrightarrow> b < 10 \<Longrightarrow> (digit_char a < digit_char b) = (a < b)"
  by (simp add: less_char_def of_char_digit_char)

lemma digit_char_eq: "a < 10 \<Longrightarrow> b < 10 \<Longrightarrow> (digit_char a = digit_char b) = (a = b)"
  by (metis of_char_digit_char add_left_cancel)

lemma is_digit_digit_char: "d < 10 \<Longrightarrow> is_digit (digit_char d)"
  by (simp add: is_digit_def of_char_digit_char)

lemma digit_val_digit_char: "d < 10 \<Longrightarrow> digit_val (digit_char d) = d"
  by (simp add: digit_val_def of_char_digit_char)

lemma digit_char_not_colon: "d < 10 \<Longrightarrow> digit_char d \<noteq> CHR '':''"
proof
  assume d: "d < 10" and "digit_char d = CHR '':''"
  then have "(of_char (digit_char d) :: nat) = of_char (CHR '':'')" by simp
  with d show False by (simp add: of_char_digit_char)
qed

lemma digit_char_0: "digit_char 0 = CHR ''0''"
proof -
  have "(of_char (digit_char 0) :: nat) = of_char (CHR ''0'')"
    by (simp add: of_char_digit_char)
  then show ?thesis by (simp only: of_char_eq_iff)
qed

lemma toString_digits: "list_all is_digit (toString n)"
proof (induction n rule: toString.induct)
  case (1 n)
  show ?case
  proof (cases "n < 10")
    case True
    then show ?thesis by (subst toString.simps) (simp add: is_digit_digit_char)
  next
    case False
    with 1 show ?thesis by (subst toString.simps) (simp add: is_digit_digit_char)
  qed
qed

lemma toString_value: "foldl (\<lambda>a c. 10 * a + digit_val c) 0 (toString n) = n"
proof (induction n rule: toString.induct)
  case (1 n)
  show ?case
  proof (cases "n < 10")
    case True
    then show ?thesis by (subst toString.simps) (simp add: digit_val_digit_char)
  next
    case False
    with 1 show ?thesis by (subst toString.simps) (simp add: digit_val_digit_char)
  qed
qed

lemma toString_no_colon: "CHR '':'' \<notin> set (toString n)"
proof (induction n rule: toString.induct)
  case (1 n)
  show ?case
  proof (cases "n < 10")
    case True
    then show ?thesis using digit_char_not_colon[of n] by (subst toString.simps) auto
  next
    case False
    with 1 show ?thesis using digit_char_not_colon[of "n mod 10"] by (subst toString.simps) auto
  qed
qed

lemma foldl_digits_zeros:
  "foldl (\<lambda>a c. 10 * a + digit_val c) 0 (replicate k (CHR ''0'') @ s)
     = foldl (\<lambda>a c. 10 * a + digit_val c) 0 s"
  by (induction k) (simp_all add: digit_val_def)

lemma Number_padStart: "Number (padStart k (CHR ''0'') (toString n)) = Some n"
proof -
  have d: "list_all is_digit (padStart k (CHR ''0'') (toString n))"
  proof -
    have "is_digit (CHR ''0'')" by (simp add: is_digit_def)
    then have "list_all is_digit (replicate j (CHR ''0''))" for j
      by (induction j) simp_all
    then show ?thesis using toString_digits[of n] by (simp add: padStart_def)
  qed
  have v: "foldl (\<lambda>a c. 10 * a + digit_val c) 0 (padStart k (CHR ''0'') (toString n)) = n"
    unfolding padStart_def foldl_digits_zeros by (rule toString_value)
  show ?thesis unfolding Number_def using d v by simp
qed

lemma padStart_no_colon: "CHR '':'' \<notin> set (padStart k (CHR ''0'') (toString n))"
  using toString_no_colon[of n] by (auto simp: padStart_def)

lemma split_colon_no_colon: "CHR '':'' \<notin> set s \<Longrightarrow> split_colon s = [s]"
  by (induction s) auto

lemma split_colon_append: "CHR '':'' \<notin> set s \<Longrightarrow> split_colon (s @ CHR '':'' # r) = s # split_colon r"
  by (induction s) auto

lemma toMinutes_toHHMM: "toMinutes (toHHMM m) = Some m"
  by (simp add: toMinutes_def toHHMM_def split_colon_append split_colon_no_colon
        padStart_no_colon Number_padStart)

lemma padStart_two_digits:
  "n < 100 \<Longrightarrow> padStart 2 (CHR ''0'') (toString n) = [digit_char (n div 10), digit_char (n mod 10)]"
proof (cases "n < 10")
  case True
  then show ?thesis by (simp add: padStart_def toString_lt10 digit_char_0)
next
  case False
  assume "n < 100"
  with False show ?thesis by (simp add: padStart_def toString_lt100)
qed

lemma toHHMM_chars:
  assumes "m < 6000"
  shows "toHHMM m = [digit_char (m div 60 div 10), digit_char (m div 60 mod 10), CHR '':'',
                     digit_char (m mod 60 div 10), digit_char (m mod 60 mod 10)]"
proof -
  have "m div 60 < 100" using assms by simp
  moreover have "m mod 60 < 100" by (simp add: less_trans[OF mod_less_divisor])
  ultimately show ?thesis unfolding toHHMM_def by (simp only: padStart_two_digits) simp
qed

lemma less_div_mod:
  fixes x y k :: nat
  assumes "x < y"
  shows "x div k < y div k \<or> (x div k = y div k \<and> x mod k < y mod k)"
proof (cases "x div k < y div k")
  case True
  then show ?thesis by simp
next
  case False
  have "x div k \<le> y div k" using assms by (simp add: div_le_mono)
  with False have e: "x div k = y div k" by simp
  have "x = k * (x div k) + x mod k" "y = k * (y div k) + y mod k" by simp_all
  with assms have "k * (x div k) + x mod k < k * (y div k) + y mod k" by metis
  with e have "x mod k < y mod k" by (simp only: add_less_cancel_left)
  with e show ?thesis by simp
qed

lemma two_digits_less:
  assumes "x < y" "y < 100"
  shows "[digit_char (x div 10), digit_char (x mod 10)] @ r
           < [digit_char (y div 10), digit_char (y mod 10)] @ r'"
proof -
  have b: "x div 10 < 10" "y div 10 < 10" "x mod 10 < 10" "y mod 10 < 10"
    using assms by simp_all
  from less_div_mod[OF assms(1), of 10] show ?thesis
    by (auto simp: digit_char_less b)
qed

lemma toHHMM_mono:
  assumes "a < b" "b < 6000"
  shows "toHHMM a < toHHMM b"
proof -
  have a: "a < 6000" using assms by simp
  have hb: "b div 60 < 100" using assms by simp
  have mb: "b mod 60 < 100" by (simp add: less_trans[OF mod_less_divisor])
  from less_div_mod[OF assms(1), of 60] show ?thesis
  proof
    assume "a div 60 < b div 60"
    from two_digits_less[OF this hb] show ?thesis
      by (simp only: toHHMM_chars[OF a] toHHMM_chars[OF assms(2)] append_Cons append_Nil)
  next
    assume h: "a div 60 = b div 60 \<and> a mod 60 < b mod 60"
    then have "[digit_char (a mod 60 div 10), digit_char (a mod 60 mod 10)] @ []
             < [digit_char (b mod 60 div 10), digit_char (b mod 60 mod 10)] @ []"
      using two_digits_less[OF _ mb] by blast
    then show ?thesis using h
      by (simp add: toHHMM_chars[OF a] toHHMM_chars[OF assms(2)])
  qed
qed

lemma toHHMM_less_iff:
  assumes "a < 6000" "b < 6000"
  shows "toHHMM a < toHHMM b \<longleftrightarrow> a < b"
proof
  assume "a < b" then show "toHHMM a < toHHMM b" using assms toHHMM_mono by blast
next
  assume l: "toHHMM a < toHHMM b"
  show "a < b"
  proof (rule ccontr)
    assume "\<not> a < b"
    then have "a = b \<or> b < a" by auto
    then show False
    proof
      assume "a = b" with l show False by simp
    next
      assume "b < a"
      then have "toHHMM b < toHHMM a" using assms toHHMM_mono by blast
      with l show False by simp
    qed
  qed
qed

lemma toHHMM_inj: "toHHMM a = toHHMM b \<Longrightarrow> a = b"
  by (metis toMinutes_toHHMM option.inject)

lemma toHHMM_le_iff:
  assumes "a < 6000" "b < 6000"
  shows "toHHMM a \<le> toHHMM b \<longleftrightarrow> a \<le> b"
  using toHHMM_less_iff[OF assms(2) assms(1)] by (simp add: not_less[symmetric] del: not_less)

section \<open>Facts about the de-duplication of slots\<close>

lemma map_fst_Map_set:
  "map fst (Map_set u k v) = (if k \<in> fst ` set u then map fst u else map fst u @ [k])"
  by (induction u) (fastforce simp: image_iff)+

lemma map_of_Map_set: "map_of (Map_set u k v) = (map_of u)(k \<mapsto> v)"
  by (induction u) (auto simp: fun_eq_iff)

lemma slot_entries_snoc:
  "slot_entries (xs @ [x]) = Map_set (slot_entries xs) (time x) x"
  by (simp add: slot_entries_def)

lemma slot_entries_Nil: "slot_entries [] = []"
  by (simp add: slot_entries_def)

lemma keys_slot_entries: "fst ` set (slot_entries xs) = time ` set xs"
proof (induction xs rule: rev_induct)
  case Nil
  show ?case by (simp add: slot_entries_Nil)
next
  case (snoc x xs)
  have "set (map fst (slot_entries (xs @ [x]))) = insert (time x) (set (map fst (slot_entries xs)))"
    unfolding slot_entries_snoc map_fst_Map_set by auto
  then show ?case using snoc by auto
qed

lemma distinct_slot_entries: "distinct (map fst (slot_entries xs))"
proof (induction xs rule: rev_induct)
  case Nil
  show ?case by (simp add: slot_entries_Nil)
next
  case (snoc x xs)
  then show ?case unfolding slot_entries_snoc map_fst_Map_set by auto
qed

lemma map_of_slot_entries:
  "map_of (slot_entries xs) k =
     (if filter (\<lambda>s. time s = k) xs = [] then None
      else Some (last (filter (\<lambda>s. time s = k) xs)))"
proof (induction xs rule: rev_induct)
  case Nil
  show ?case by (simp add: slot_entries_Nil)
next
  case (snoc x xs)
  show ?case
  proof (cases "time x = k")
    case True
    then show ?thesis
      unfolding slot_entries_snoc map_of_Map_set by simp
  next
    case False
    then show ?thesis
      unfolding slot_entries_snoc map_of_Map_set using snoc
      by simp
  qed
qed

lemma slot_entries_member:
  assumes "(k, s) \<in> set (slot_entries xs)"
  shows "time s = k \<and> s \<in> set xs \<and> s = last (filter (\<lambda>x. time x = k) xs)"
proof -
  have "map_of (slot_entries xs) k = Some s"
    using assms distinct_slot_entries by (simp add: map_of_eq_Some_iff)
  then have ne: "filter (\<lambda>x. time x = k) xs \<noteq> []"
    and l: "s = last (filter (\<lambda>x. time x = k) xs)"
    by (simp_all add: map_of_slot_entries split: if_splits)
  from ne l have "s \<in> set (filter (\<lambda>x. time x = k) xs)" using last_in_set by blast
  then show ?thesis using l by simp
qed

lemma map_time_unique_slots: "map time (unique_slots xs) = map fst (slot_entries xs)"
  unfolding unique_slots_def using slot_entries_member[of _ _ xs]
  by (auto simp: list_eq_iff_nth_eq)

lemma sorted_slot_entries:
  "sorted (map time xs) \<Longrightarrow> sorted (map fst (slot_entries xs))"
proof (induction xs rule: rev_induct)
  case Nil
  show ?case by (simp add: slot_entries_Nil)
next
  case (snoc x xs)
  from snoc.prems have s: "sorted (map time xs)" and le: "\<forall>y\<in>set xs. time y \<le> time x"
    by (auto simp: sorted_append)
  have "\<forall>k\<in>set (map fst (slot_entries xs)). k \<le> time x"
    using le keys_slot_entries[of xs] by auto
  then show ?case
    unfolding slot_entries_snoc map_fst_Map_set using snoc.IH[OF s]
    by (auto simp: sorted_append)
qed

lemma unique_slots_sorted_input:
  assumes "sorted (map time xs)"
  shows "map time (unique_slots xs) = sorted_list_of_set (time ` set xs)"
proof -
  have "sorted (map time (unique_slots xs))" "distinct (map time (unique_slots xs))"
       "set (map time (unique_slots xs)) = time ` set xs"
    using sorted_slot_entries[OF assms] distinct_slot_entries[of xs] keys_slot_entries[of xs]
    by (simp_all add: map_time_unique_slots)
  then show ?thesis
    by (metis List.finite_set finite_imageI sorted_list_of_set.idem_if_sorted_distinct)
qed

section \<open>Slot derivation\<close>

lemma set_slot_minutes: "set (slot_minutes s e) = {m. \<exists>k. m = s + 30 * k \<and> m < e}"
proof (induction s e rule: slot_minutes.induct)
  case (1 m e)
  show ?case
  proof (cases "m < e")
    case True
    have "{x. \<exists>k. x = m + 30 * k \<and> x < e} = insert m {x. \<exists>k. x = m + 30 + 30 * k \<and> x < e}"
    proof (intro set_eqI iffI)
      fix x assume "x \<in> {x. \<exists>k. x = m + 30 * k \<and> x < e}"
      then obtain k where k: "x = m + 30 * k" "x < e" by blast
      show "x \<in> insert m {x. \<exists>k. x = m + 30 + 30 * k \<and> x < e}"
      proof (cases k)
        case 0
        with k show ?thesis by simp
      next
        case (Suc j)
        with k have "x = m + 30 + 30 * j" by simp
        with k show ?thesis by blast
      qed
    next
      fix x assume "x \<in> insert m {x. \<exists>k. x = m + 30 + 30 * k \<and> x < e}"
      then consider "x = m" | k where "x = m + 30 + 30 * k" "x < e" by blast
      then show "x \<in> {x. \<exists>k. x = m + 30 * k \<and> x < e}"
      proof cases
        case 1
        with True have "x = m + 30 * 0 \<and> x < e" by simp
        then show ?thesis by blast
      next
        case 2
        then have "x = m + 30 * Suc k \<and> x < e" by simp
        then show ?thesis by blast
      qed
    qed
    with True 1 show ?thesis by (subst slot_minutes.simps) simp
  next
    case False
    then have "{x. \<exists>k. x = m + 30 * k \<and> x < e} = {}" by auto
    with False show ?thesis by (subst slot_minutes.simps) simp
  qed
qed

lemma set_window_minutes:
  "set (window_minutes start end_t) =
     {m. \<exists>s e k. toMinutes start = Some s \<and> toMinutes end_t = Some e \<and> m = s + 30 * k \<and> m < e}"
proof (cases "toMinutes start")
  case None
  then show ?thesis by (simp add: window_minutes_def)
next
  case (Some s)
  show ?thesis
  proof (cases "toMinutes end_t")
    case None
    with Some show ?thesis by (simp add: window_minutes_def)
  next
    case (Some e)
    with \<open>toMinutes start = Some s\<close> show ?thesis
      by (simp add: window_minutes_def set_slot_minutes)
  qed
qed

lemma set_window_slots:
  "set (window_slots taken w) =
     (\<lambda>m. \<lparr>time = toHHMM m, available = toHHMM m \<notin> set taken\<rparr>) `
       {m. \<exists>s e k. toMinutes (start_time w) = Some s \<and> toMinutes (end_time w) = Some e
                  \<and> m = s + 30 * k \<and> m < e}"
  by (simp add: window_slots_def set_window_minutes)

lemma sorted_list_of_set_toHHMM:
  assumes "\<forall>m\<in>M. m < 6000"
  shows "sorted_list_of_set (toHHMM ` M) = map toHHMM (sorted_list_of_set M)"
proof -
  have fin: "finite M" using assms by (auto intro: finite_subset[of _ "{..<6000}"])
  let ?xs = "sorted_list_of_set M"
  have bound: "\<forall>m\<in>set ?xs. m < 6000" using assms fin by simp
  have "sorted_wrt (\<lambda>a b. toHHMM a \<le> toHHMM b) ?xs"
  proof (rule sorted_wrt_mono_rel[of _ "(\<le>)"])
    fix a b assume "a \<in> set ?xs" "b \<in> set ?xs" "a \<le> b"
    then show "toHHMM a \<le> toHHMM b" using bound toHHMM_le_iff by blast
  next
    show "sorted_wrt (\<le>) ?xs" by simp
  qed
  then have s: "sorted (map toHHMM ?xs)" by (simp add: sorted_map)
  have d: "distinct (map toHHMM ?xs)"
    by (simp add: distinct_map inj_on_def) (use toHHMM_inj in blast)
  have e: "set (map toHHMM ?xs) = toHHMM ` M" using fin by simp
  from s d e show ?thesis
    by (metis fin finite_imageI sorted_list_of_set.idem_if_sorted_distinct)
qed

lemma unique_slots_member:
  assumes "x \<in> set (unique_slots xs)"
  shows "x \<in> set xs \<and> x = last (filter (\<lambda>y. time y = time x) xs)"
proof -
  from assms obtain k where "(k, x) \<in> set (slot_entries xs)"
    by (auto simp: unique_slots_def)
  from slot_entries_member[OF this] show ?thesis by auto
qed

lemma loadAvailability_unfold:
  assumes "did \<noteq> []" "selectedDate \<noteq> []" "\<not> flt SelectSchedules" "\<not> flt SelectBookings"
  shows "loadAvailability flt getDay db (Some did) selectedDate =
     unique_slots (sort_key time (concat (map
       (window_slots (map appointment_time (filter (\<lambda>b. doctor_id b = did
            \<and> appointment_date b = selectedDate \<and> status b \<noteq> Cancelled) (bookings db))))
       (filter (\<lambda>s. schedule_doctor_id s = did \<and> day_of_week s = getDay selectedDate
            \<and> is_available s) (doctor_schedules db)))))"
  using assms by (simp add: loadAvailability_def Let_def)

lemma loadAvailability_guard:
  assumes "did = [] \<or> selectedDate = [] \<or> flt SelectSchedules \<or> flt SelectBookings"
  shows "loadAvailability flt getDay db (Some did) selectedDate = []"
  using assms by (auto simp: loadAvailability_def)

lemma loadAvailability_slot_shape:
  assumes "x \<in> set (loadAvailability flt getDay db (Some did) selectedDate)"
  shows "\<exists>m. x = \<lparr>time = toHHMM m,
                   available = toHHMM m \<notin> set (map appointment_time (filter (\<lambda>b. doctor_id b = did
                       \<and> appointment_date b = selectedDate \<and> status b \<noteq> Cancelled) (bookings db)))\<rparr>"
proof (cases "did = [] \<or> selectedDate = [] \<or> flt SelectSchedules \<or> flt SelectBookings")
  case True
  from loadAvailability_guard[OF this] assms show ?thesis by simp
next
  case False
  then have g: "did \<noteq> []" "selectedDate \<noteq> []" "\<not> flt SelectSchedules" "\<not> flt SelectBookings"
    by simp_all
  let ?taken = "map appointment_time (filter (\<lambda>b. doctor_id b = did
                       \<and> appointment_date b = selectedDate \<and> status b \<noteq> Cancelled) (bookings db))"
  let ?ws = "filter (\<lambda>s. schedule_doctor_id s = did \<and> day_of_week s = getDay selectedDate
            \<and> is_available s) (doctor_schedules db)"
  from assms have "x \<in> set (unique_slots (sort_key time (concat (map (window_slots ?taken) ?ws))))"
    by (simp only: loadAvailability_unfold[OF g])
  then have "x \<in> set (sort_key time (concat (map (window_slots ?taken) ?ws)))"
    using unique_slots_member by blast
  then obtain w where "x \<in> set (window_slots ?taken w)" by auto
  then show ?thesis unfolding set_window_slots by blast
qed

text \<open>
  The derivation for a given weekday function \<open>getDay\<close>. With a doctor id and a date
  given and both reads answered, \<^verbatim>\<open>loadAvailability\<close> works on \<open>ws\<close>, the schedule
  rows of the doctor for the weekday \<open>getDay selectedDate\<close> with \<open>is_available = true\<close>,
  and on \<open>taken\<close>, the \<open>appointment_time\<close> values of the doctor's non-cancelled
  bookings of that date. \<open>M\<close> is the set of minute counts at 30-minute steps from the
  start (inclusive) to the end (exclusive) of some row of \<open>ws\<close>. The result lists
  exactly the times \<open>toHHMM m\<close> for \<open>m \<in> M\<close>, each once, in ascending order of the time
  strings; a slot is available exactly when its time is not in \<open>taken\<close>; each slot is
  the last one generated for its time; the result is empty when \<open>ws\<close> is empty. When all
  times lie below 100 hours, the order of the strings is the order of the clock times.
\<close>

lemma loadAvailability_derivation:
  assumes "did \<noteq> []" and "selectedDate \<noteq> []"
    and "\<not> flt SelectSchedules" and "\<not> flt SelectBookings"
    and ws: "ws = filter (\<lambda>s. schedule_doctor_id s = did \<and> day_of_week s = getDay selectedDate
                            \<and> is_available s) (doctor_schedules db)"
    and taken: "taken = map appointment_time (filter (\<lambda>b. doctor_id b = did
                            \<and> appointment_date b = selectedDate \<and> status b \<noteq> Cancelled) (bookings db))"
    and M: "M = {m. \<exists>w\<in>set ws. \<exists>s e k. toMinutes (start_time w) = Some s
                      \<and> toMinutes (end_time w) = Some e \<and> m = s + 30 * k \<and> m < e}"
    and res: "res = loadAvailability flt getDay db (Some did) selectedDate"
  shows "time ` set res = toHHMM ` M
       \<and> distinct (map time res) \<and> sorted (map time res)
       \<and> (\<forall>x\<in>set res. available x = (time x \<notin> set taken))
       \<and> (\<forall>x\<in>set res. x = last (filter (\<lambda>y. time y = time x) (concat (map (window_slots taken) ws))))
       \<and> (ws = [] \<longrightarrow> res = [])
       \<and> ((\<forall>m\<in>M. m < 6000) \<longrightarrow>
            res = map (\<lambda>m. \<lparr>time = toHHMM m, available = toHHMM m \<notin> set taken\<rparr>)
                      (sorted_list_of_set M))"
proof -
  let ?mk = "\<lambda>m. \<lparr>time = toHHMM m, available = toHHMM m \<notin> set taken\<rparr>"
  let ?slots = "concat (map (window_slots taken) ws)"
  let ?srt = "sort_key time ?slots"
  have r: "res = unique_slots ?srt"
    unfolding res ws taken by (rule loadAvailability_unfold) fact+
  have M': "M = (\<Union>w\<in>set ws. {m. \<exists>s e k. toMinutes (start_time w) = Some s
                      \<and> toMinutes (end_time w) = Some e \<and> m = s + 30 * k \<and> m < e})"
    unfolding M by blast
  have slots: "set ?slots = ?mk ` M"
    unfolding M' by (simp add: set_window_slots image_UN)
  have set_srt: "set ?srt = set ?slots" by simp
  have sorted_srt: "sorted (map time ?srt)" by simp
  have times: "map time res = sorted_list_of_set (time ` set ?slots)"
    unfolding r using unique_slots_sorted_input[OF sorted_srt] by (simp only: set_srt)
  have tm: "time ` set ?slots = toHHMM ` M"
    unfolding slots by (simp add: image_image)
  have fin: "finite (time ` set ?slots)" by simp
  have c1: "time ` set res = toHHMM ` M"
  proof -
    have "set (map time res) = time ` set ?slots" unfolding times using fin by simp
    then show ?thesis using tm by simp
  qed
  have c2: "distinct (map time res)" "sorted (map time res)"
    unfolding times by simp_all
  have mem: "x \<in> set ?slots \<and> x = last (filter (\<lambda>y. time y = time x) ?slots)"
    if "x \<in> set res" for x
  proof -
    from that have "x \<in> set ?srt \<and> x = last (filter (\<lambda>y. time y = time x) ?srt)"
      unfolding r by (rule unique_slots_member)
    then show ?thesis by (simp only: set_srt sort_key_stable)
  qed
  have shape: "x = \<lparr>time = time x, available = time x \<notin> set taken\<rparr>" if "x \<in> set res" for x
  proof -
    from mem[OF that] have "x \<in> set ?slots" by (rule conjunct1)
    then have "x \<in> ?mk ` M" by (simp only: slots)
    then show ?thesis by auto
  qed
  have c3: "\<forall>x\<in>set res. available x = (time x \<notin> set taken)"
  proof
    fix x assume "x \<in> set res"
    from shape[OF this] show "available x = (time x \<notin> set taken)"
      by (metis TimeSlot.select_convs(2))
  qed
  have c4: "\<forall>x\<in>set res. x = last (filter (\<lambda>y. time y = time x) ?slots)"
    using mem by blast
  have c5: "ws = [] \<longrightarrow> res = []"
    unfolding r by (simp add: unique_slots_def slot_entries_def)
  have c6: "(\<forall>m\<in>M. m < 6000) \<longrightarrow> res = map ?mk (sorted_list_of_set M)"
  proof
    assume b: "\<forall>m\<in>M. m < 6000"
    have "map time res = map toHHMM (sorted_list_of_set M)"
      unfolding times tm by (rule sorted_list_of_set_toHHMM[OF b])
    moreover have "res = map (\<lambda>t. \<lparr>time = t, available = t \<notin> set taken\<rparr>) (map time res)"
      using shape by (simp add: list_eq_iff_nth_eq)
    ultimately show "res = map ?mk (sorted_list_of_set M)"
      by (simp add: comp_def)
  qed
  from c1 c2 c3 c4 c5 c6 show ?thesis by blast
qed

lemma loadAvailability_derivation_example:
  "''d1'' \<noteq> [] \<and> ''2030-01-07'' \<noteq> []
   \<and> \<not> no_faults SelectSchedules \<and> \<not> no_faults SelectBookings
   \<and> loadAvailability no_faults (\<lambda>_. 1) slots_store (Some ''d1'') ''2030-01-07''
       = [\<lparr>time = ''08:00'', available = True\<rparr>, \<lparr>time = ''08:30'', available = False\<rparr>,
          \<lparr>time = ''09:00'', available = True\<rparr>]
   \<and> distinct (map time (loadAvailability no_faults (\<lambda>_. 1) slots_store (Some ''d1'') ''2030-01-07''))
   \<and> sorted (map time (loadAvailability no_faults (\<lambda>_. 1) slots_store (Some ''d1'') ''2030-01-07''))
   \<and> list_all (\<lambda>x. available x = (time x \<notin> {''08:30'', ''09:00:00'', ''8:00''}))
        (loadAvailability no_faults (\<lambda>_. 1) slots_store (Some ''d1'') ''2030-01-07'')"
proof -
  have h: "''d1'' \<noteq> []" "''2030-01-07'' \<noteq> []"
          "\<not> no_faults SelectSchedules" "\<not> no_faults SelectBookings"
    by (simp_all add: no_faults_def)
  have v: "loadAvailability no_faults (\<lambda>_. 1) slots_store (Some ''d1'') ''2030-01-07''
       = [\<lparr>time = ''08:00'', available = True\<rparr>, \<lparr>time = ''08:30'', available = False\<rparr>,
          \<lparr>time = ''09:00'', available = True\<rparr>]"
    by code_simp
  have t: "set (map appointment_time (filter (\<lambda>b. doctor_id b = ''d1''
              \<and> appointment_date b = ''2030-01-07'' \<and> status b \<noteq> Cancelled) (bookings slots_store)))
           = {''08:30'', ''09:00:00'', ''8:00''}"
    by (simp add: slots_store_def sample_booking_def)
  note d = loadAvailability_derivation[OF h refl refl refl refl, of "\<lambda>_. 1" slots_store]
  from d have "distinct (map time (loadAvailability no_faults (\<lambda>_. 1) slots_store (Some ''d1'') ''2030-01-07''))"
     "sorted (map time (loadAvailability no_faults (\<lambda>_. 1) slots_store (Some ''d1'') ''2030-01-07''))"
     "list_all (\<lambda>x. available x = (time x \<notin> {''08:30'', ''09:00:00'', ''8:00''}))
        (loadAvailability no_faults (\<lambda>_. 1) slots_store (Some ''d1'') ''2030-01-07'')"
    unfolding t list_all_iff by blast+
  with h v show ?thesis by blast
qed

lemma prev_weekday: "nat ((k + - 1 + 4) mod 7) = (nat ((k + 4) mod 7) + 6) mod 7" for k :: int
proof -
  have a: "(k + - 1 + 4) mod 7 = ((k + 4) mod 7 + 6) mod 7" by presburger
  have "int ((nat ((k + 4) mod 7) + 6) mod 7) = ((k + 4) mod 7 + 6) mod 7"
    by (simp add: zmod_int)
  then have "(nat ((k + 4) mod 7) + 6) mod 7 = nat (((k + 4) mod 7 + 6) mod 7)"
    by (metis nat_int)
  then show ?thesis by (simp only: a)
qed

lemma Date_getDay_east_of_UTC:
  assumes "spec_weekday s = Some w" "0 \<le> tz" "tz < 1440"
  shows "Date_getDay tz s = w"
proof -
  from assms(2,3) have "tz div 1440 = 0" by simp
  with assms(1) show ?thesis
    by (auto simp: Date_getDay_def spec_weekday_def split: option.splits)
qed

lemma Date_getDay_west_of_UTC:
  assumes "spec_weekday s = Some w" "- 1440 \<le> tz" "tz < 0"
  shows "Date_getDay tz s = (w + 6) mod 7"
proof -
  from assms(2,3) have t: "tz div 1440 = - 1" by (simp add: div_eq_minus1 zdiv_eq_0_iff) 
  from assms(1) obtain y m d where p: "parse_iso_date s = Some (y, m, d)"
    and w: "w = nat ((days_from_civil y m d + 4) mod 7)"
    by (auto simp: spec_weekday_def split: option.splits)
  have "nat ((days_from_civil y m d + - 1 + 4) mod 7)
          = (nat ((days_from_civil y m d + 4) mod 7) + 6) mod 7"
    by (rule prev_weekday)
  then show ?thesis using p w t by (simp add: Date_getDay_def)
qed

text \<open>
  C3. The claim: the slots are derived from the schedule rows of the weekday of the requested
  date. The rest of the derivation is as claimed (\<open>loadAvailability_derivation\<close>), and
  east of UTC the weekday is the date's (\<open>Date_getDay_east_of_UTC\<close>). West of UTC the
  weekday queried is the one before (\<open>Date_getDay_west_of_UTC\<close>): midnight UTC of the
  date lies on the previous local day. Here 2030-01-07 is a Monday; a browser five hours
  west of UTC is served the doctor's Sunday window, a browser two hours east the Monday one.
\<close>

theorem loadAvailability_weekday_west_of_UTC:
  "spec_weekday ''2030-01-07'' = Some 1
   \<and> Date_getDay (- 300) ''2030-01-07'' = 0
   \<and> loadAvailability no_faults (Date_getDay (- 300)) week_store (Some ''d1'') ''2030-01-07''
       = [\<lparr>time = ''14:00'', available = True\<rparr>, \<lparr>time = ''14:30'', available = True\<rparr>]
   \<and> Date_getDay 120 ''2030-01-07'' = 1
   \<and> loadAvailability no_faults (Date_getDay 120) week_store (Some ''d1'') ''2030-01-07''
       = [\<lparr>time = ''08:00'', available = True\<rparr>, \<lparr>time = ''08:30'', available = True\<rparr>]"
  by code_simp

text \<open>
  C10. Every slot of the derivation carries a zero-padded time \<open>toHHMM m\<close>, and it is marked
  unavailable exactly when some non-cancelled booking of the same doctor and date has an
  \<open>appointment_time\<close> equal to that string. A booking recorded as \<^verbatim>\<open>09:00:00\<close> or
  \<^verbatim>\<open>8:00\<close> does not take the slots \<^verbatim>\<open>09:00\<close> and \<^verbatim>\<open>08:00\<close>, as the worked
  example shows.
\<close>

theorem slot_taken_by_exact_time_string:
  "\<forall>x\<in>set (loadAvailability flt getDay db (Some did) selectedDate).
     (\<exists>m. time x = toHHMM m) \<and>
     (\<not> available x \<longleftrightarrow>
        (\<exists>b\<in>set (bookings db). doctor_id b = did \<and> appointment_date b = selectedDate
             \<and> status b \<noteq> Cancelled \<and> appointment_time b = time x))"
proof
  fix x assume "x \<in> set (loadAvailability flt getDay db (Some did) selectedDate)"
  from loadAvailability_slot_shape[OF this] obtain m where
    x: "x = \<lparr>time = toHHMM m,
             available = toHHMM m \<notin> set (map appointment_time (filter (\<lambda>b. doctor_id b = did
                       \<and> appointment_date b = selectedDate \<and> status b \<noteq> Cancelled) (bookings db)))\<rparr>"
    by blast
  have t: "time x = toHHMM m" by (subst x) simp
  have a: "available x = (toHHMM m \<notin> set (map appointment_time (filter (\<lambda>b. doctor_id b = did
                       \<and> appointment_date b = selectedDate \<and> status b \<noteq> Cancelled) (bookings db))))"
    by (subst x) simp
  show "(\<exists>m. time x = toHHMM m) \<and>
     (\<not> available x \<longleftrightarrow>
        (\<exists>b\<in>set (bookings db). doctor_id b = did \<and> appointment_date b = selectedDate
             \<and> status b \<noteq> Cancelled \<and> appointment_time b = time x))"
    unfolding a t by (auto simp: image_iff)
qed

theorem slot_taken_by_exact_time_string_witness:
  "loadAvailability no_faults (\<lambda>_. 1) slots_store (Some ''d1'') ''2030-01-07''
       = [\<lparr>time = ''08:00'', available = True\<rparr>, \<lparr>time = ''08:30'', available = False\<rparr>,
          \<lparr>time = ''09:00'', available = True\<rparr>]
   \<and> map appointment_time (filter (\<lambda>b. doctor_id b = ''d1'' \<and> appointment_date b = ''2030-01-07''
           \<and> status b \<noteq> Cancelled) (bookings slots_store)) = [''08:30'', ''09:00:00'', ''8:00'']
   \<and> list_all (\<lambda>x. (\<exists>m. time x = toHHMM m) \<and>
        (\<not> available x \<longleftrightarrow>
          (\<exists>b\<in>set (bookings slots_store). doctor_id b = ''d1'' \<and> appointment_date b = ''2030-01-07''
             \<and> status b \<noteq> Cancelled \<and> appointment_time b = time x)))
        [\<lparr>time = ''08:00'', available = True\<rparr>, \<lparr>time = ''08:30'', available = False\<rparr>,
         \<lparr>time = ''09:00'', available = True\<rparr>]"
proof -
  have v: "loadAvailability no_faults (\<lambda>_. 1) slots_store (Some ''d1'') ''2030-01-07''
       = [\<lparr>time = ''08:00'', available = True\<rparr>, \<lparr>time = ''08:30'', available = False\<rparr>,
          \<lparr>time = ''09:00'', available = True\<rparr>]"
    by code_simp
  have t: "map appointment_time (filter (\<lambda>b. doctor_id b = ''d1'' \<and> appointment_date b = ''2030-01-07''
           \<and> status b \<noteq> Cancelled) (bookings slots_store)) = [''08:30'', ''09:00:00'', ''8:00'']"
    by code_simp
  from slot_taken_by_exact_time_string[of no_faults "\<lambda>_. 1" slots_store "''d1''" "''2030-01-07''"]
  show ?thesis unfolding v list_all_iff using v t by blast
qed

section \<open>Schedule rows computed by \<^verbatim>\<open>saveSchedule\<close>\<close>

lemma sort_not_Nil:
  fixes xs :: "'a::linorder list"
  shows "xs \<noteq> [] \<Longrightarrow> sort xs \<noteq> []"
  by (metis length_sort length_0_conv)

lemma hd_sort_Min:
  fixes xs :: "'a::linorder list"
  assumes "xs \<noteq> []"
  shows "hd (sort xs) = Min (set xs)"
proof -
  obtain y ys where e: "sort xs = y # ys"
    using sort_not_Nil[OF assms] by (cases "sort xs") auto
  have s: "sorted (y # ys)" using sorted_sort[of xs] by (simp only: e)
  have m: "set xs = set (y # ys)" using set_sort[of "\<lambda>x. x" xs] by (simp only: e)
  have "Min (set xs) = y"
    by (rule Min_eqI) (use s m in auto)
  then show ?thesis by (simp add: e)
qed

lemma last_sort_Max:
  fixes xs :: "'a::linorder list"
  assumes "xs \<noteq> []"
  shows "last (sort xs) = Max (set xs)"
proof -
  have ne: "sort xs \<noteq> []" by (rule sort_not_Nil[OF assms])
  have s: "sorted (sort xs)" by simp
  have "Max (set xs) = last (sort xs)"
  proof (rule Max_eqI)
    show "finite (set xs)" by simp
    show "last (sort xs) \<in> set xs" using last_in_set[OF ne] by simp
    fix y assume "y \<in> set xs"
    then have "y \<in> set (sort xs)" by simp
    then obtain i where i: "i < length (sort xs)" "sort xs ! i = y"
      unfolding in_set_conv_nth by blast
    have "sort xs ! i \<le> sort xs ! (length (sort xs) - 1)"
      using s i ne by (intro sorted_nth_mono) auto
    then show "y \<le> last (sort xs)" using i ne by (simp add: last_conv_nth)
  qed
  then show ?thesis by simp
qed

lemma Min_toHHMM:
  assumes "ms \<noteq> []" "\<forall>m\<in>set ms. m < 6000"
  shows "Min (toHHMM ` set ms) = toHHMM (Min (set ms))"
proof (rule Min_eqI)
  show "finite (toHHMM ` set ms)" by simp
  have mn: "Min (set ms) \<in> set ms" using assms by (intro Min_in) auto
  then show "toHHMM (Min (set ms)) \<in> toHHMM ` set ms" by blast
  fix y assume "y \<in> toHHMM ` set ms"
  then obtain m where m: "m \<in> set ms" "y = toHHMM m" by blast
  then have "Min (set ms) \<le> m" by simp
  then show "toHHMM (Min (set ms)) \<le> y" using m mn assms toHHMM_le_iff by blast
qed

lemma Max_toHHMM:
  assumes "ms \<noteq> []" "\<forall>m\<in>set ms. m < 6000"
  shows "Max (toHHMM ` set ms) = toHHMM (Max (set ms))"
proof (rule Max_eqI)
  show "finite (toHHMM ` set ms)" by simp
  have mx: "Max (set ms) \<in> set ms" using assms by (intro Max_in) auto
  then show "toHHMM (Max (set ms)) \<in> toHHMM ` set ms" by blast
  fix y assume "y \<in> toHHMM ` set ms"
  then obtain m where m: "m \<in> set ms" "y = toHHMM m" by blast
  then have "m \<le> Max (set ms)" by simp
  then show "y \<le> toHHMM (Max (set ms))" using m mx assms toHHMM_le_iff by blast
qed

lemma day_row_selection:
  assumes sel: "selected st = map toHHMM ms" and ne: "ms \<noteq> []" and b: "\<forall>m\<in>set ms. m < 6000"
  shows "day_row doctorId d st =
     Some \<lparr>schedule_doctor_id = doctorId, day_of_week = d,
           start_time = toHHMM (Min (set ms)), end_time = toHHMM (Max (set ms) + 30),
           is_available = True\<rparr>"
proof -
  have ne': "selected st \<noteq> []" using sel ne by simp
  obtain start rest where e: "sort (selected st) = start # rest"
    using ne' by (cases "sort (selected st)") (auto dest: arg_cong[where f = length])
  have img: "set (selected st) = toHHMM ` set ms" by (simp add: sel)
  have "start = hd (sort (selected st))" by (simp add: e)
  also have "\<dots> = Min (toHHMM ` set ms)" by (simp only: hd_sort_Min[OF ne'] img)
  finally have start: "start = toHHMM (Min (set ms))" by (simp only: Min_toHHMM[OF ne b])
  have "last (start # rest) = last (sort (selected st))" by (simp add: e)
  also have "\<dots> = Max (toHHMM ` set ms)" by (simp only: last_sort_Max[OF ne'] img)
  finally have lst: "last (start # rest) = toHHMM (Max (set ms))"
    by (simp only: Max_toHHMM[OF ne b])
  have le: "Min (set ms) \<le> Max (set ms)" using ne by simp
  show ?thesis
    unfolding day_row_def e list.case Let_def lst
    using le by (simp add: toMinutes_toHHMM start)
qed

lemma day_row_empty: "selected st = [] \<Longrightarrow> day_row doctorId d st = None"
  by (simp add: day_row_def)

lemma day_row_Some:
  assumes "day_row doctorId d st = Some r"
  shows "schedule_doctor_id r = doctorId \<and> day_of_week r = d \<and> is_available r
       \<and> (\<exists>s e. toMinutes (start_time r) = Some s \<and> toMinutes (end_time r) = Some e \<and> s < e)"
  using assms
  by (auto simp: day_row_def Let_def split: list.splits option.splits if_splits)

lemma start_neq_end:
  assumes "toMinutes a = Some s" "toMinutes b = Some e" "s < e"
  shows "a \<noteq> b"
  using assms by auto

lemma day_rows_member:
  assumes "r \<in> set (day_rows doctorId dayStates k)"
  shows "\<exists>st. dayStates k = Some st \<and> day_row doctorId k st = Some r"
proof (cases "dayStates k")
  case None
  with assms show ?thesis by (simp add: day_rows_def)
next
  case (Some st)
  with assms show ?thesis by (cases "day_row doctorId k st") (simp_all add: day_rows_def)
qed

lemma day_rows_day: "r \<in> set (day_rows doctorId dayStates k) \<Longrightarrow> day_of_week r = k"
  using day_rows_member day_row_Some by blast

lemma filter_day_rows:
  "filter (\<lambda>r. day_of_week r = d) (day_rows doctorId dayStates k)
     = (if k = d then day_rows doctorId dayStates k else [])"
proof (cases "k = d")
  case True
  then show ?thesis using day_rows_day[of _ doctorId dayStates k] by (simp add: filter_id_conv)
next
  case False
  then show ?thesis using day_rows_day[of _ doctorId dayStates k] by (auto simp: filter_empty_conv)
qed

lemma filter_day_upto:
  "filter (\<lambda>r. day_of_week r = d) (concat (map (day_rows doctorId dayStates) [0..<n]))
     = (if d < n then day_rows doctorId dayStates d else [])"
  by (induction n) (auto simp: filter_day_rows)

lemma filter_schedule_rows:
  "filter (\<lambda>r. day_of_week r = d) (schedule_rows doctorId dayStates)
     = (if d < 7 then day_rows doctorId dayStates d else [])"
  unfolding schedule_rows_def by (rule filter_day_upto)

lemma schedule_rows_member:
  assumes "r \<in> set (schedule_rows doctorId dayStates)"
  shows "schedule_doctor_id r = doctorId \<and> day_of_week r < 7 \<and> is_available r
       \<and> (\<exists>s e. toMinutes (start_time r) = Some s \<and> toMinutes (end_time r) = Some e \<and> s < e)"
proof -
  from assms obtain k where k: "k < 7" "r \<in> set (day_rows doctorId dayStates k)"
    by (auto simp: schedule_rows_def)
  then obtain st where "dayStates k = Some st" "day_row doctorId k st = Some r"
    using day_rows_member by blast
  from day_row_Some[OF this(2)] k show ?thesis by simp
qed

section \<open>The store after \<^verbatim>\<open>saveSchedule\<close>\<close>

lemma upsert_row_fresh:
  "\<forall>x\<in>set tbl. \<not> same_key x r \<Longrightarrow> upsert_row tbl r = tbl @ [r]"
  by (simp add: upsert_row_def list_ex_iff)

lemma upsert_fresh:
  assumes "\<forall>r\<in>set rows. \<forall>x\<in>set tbl. \<not> same_key x r"
      and "distinct (map day_of_week rows)"
  shows "upsert tbl rows = tbl @ rows"
  using assms
proof (induction rows arbitrary: tbl)
  case Nil
  show ?case by (simp add: upsert_def)
next
  case (Cons r rows)
  have f: "upsert_row tbl r = tbl @ [r]"
    using Cons.prems(1) by (intro upsert_row_fresh) simp
  have "\<forall>r'\<in>set rows. \<forall>x\<in>set (tbl @ [r]). \<not> same_key x r'"
    using Cons.prems by (auto simp: same_key_def)
  moreover have "distinct (map day_of_week rows)" using Cons.prems(2) by simp
  ultimately have "upsert (tbl @ [r]) rows = (tbl @ [r]) @ rows" by (rule Cons.IH)
  then show ?case using f by (simp add: upsert_def)
qed

lemma day_rows_upto_days:
  "distinct (map day_of_week (concat (map (day_rows doctorId dayStates) [0..<n])))
   \<and> (\<forall>r\<in>set (concat (map (day_rows doctorId dayStates) [0..<n])). day_of_week r < n)"
proof (induction n)
  case 0
  show ?case by simp
next
  case (Suc n)
  have one: "length (day_rows doctorId dayStates n) \<le> 1"
    by (simp add: day_rows_def split: option.splits)
  then have d: "distinct (map day_of_week (day_rows doctorId dayStates n))"
    by (cases "day_rows doctorId dayStates n") simp_all
  have day: "\<forall>r\<in>set (day_rows doctorId dayStates n). day_of_week r = n"
    using day_rows_day by blast
  from Suc d day show ?case by (auto simp: less_Suc_eq)
qed

lemma schedule_rows_distinct_days: "distinct (map day_of_week (schedule_rows doctorId dayStates))"
  unfolding schedule_rows_def using day_rows_upto_days by blast

lemma saveSchedule_full_replace:
  assumes "\<not> flt DeleteSchedules" "\<not> flt UpsertSchedules" "did \<noteq> []"
  shows "saveSchedule flt db (Some did) ensured dayStates =
           (ScheduleLive,
            db\<lparr>doctor_schedules := filter (\<lambda>r. schedule_doctor_id r \<noteq> did) (doctor_schedules db)
                                    @ schedule_rows did dayStates\<rparr>)"
proof -
  let ?kept = "filter (\<lambda>r. schedule_doctor_id r \<noteq> did) (doctor_schedules db)"
  have "\<forall>r\<in>set (schedule_rows did dayStates). \<forall>x\<in>set ?kept. \<not> same_key x r"
    using schedule_rows_member[of _ did dayStates] by (auto simp: same_key_def)
  then have u: "upsert ?kept (schedule_rows did dayStates) = ?kept @ schedule_rows did dayStates"
    using schedule_rows_distinct_days by (rule upsert_fresh)
  show ?thesis
  proof (cases "schedule_rows did dayStates = []")
    case True
    with assms show ?thesis by (simp add: saveSchedule_def Let_def)
  next
    case False
    with assms u show ?thesis by (simp add: saveSchedule_def Let_def)
  qed
qed

lemma saveSchedule_read_back:
  assumes "\<not> flt DeleteSchedules" "\<not> flt UpsertSchedules" "did \<noteq> []"
  shows "getSchedules (snd (saveSchedule flt db (Some did) ensured dayStates)) did
           = schedule_rows did dayStates"
proof -
  have "filter (\<lambda>r. schedule_doctor_id r = did) (schedule_rows did dayStates)
          = schedule_rows did dayStates"
    using schedule_rows_member[of _ did dayStates] by (simp add: filter_id_conv)
  then show ?thesis
    unfolding saveSchedule_full_replace[OF assms] getSchedules_def by simp
qed

lemma upsert_snoc: "upsert tbl (rows @ [r]) = upsert_row (upsert tbl rows) r"
  by (simp add: upsert_def)

lemma upsert_row_new: "r \<in> set (upsert_row tbl r)"
  by (auto simp: upsert_row_def list_ex_iff)

lemma upsert_row_keeps: "x \<in> set tbl \<Longrightarrow> \<not> same_key x r \<Longrightarrow> x \<in> set (upsert_row tbl r)"
  by (auto simp: upsert_row_def)

lemma upsert_holds_rows:
  assumes "distinct (map day_of_week rows)"
  shows "set rows \<subseteq> set (upsert tbl rows)"
  using assms
proof (induction rows rule: rev_induct)
  case Nil
  show ?case by simp
next
  case (snoc r rows)
  then have ih: "set rows \<subseteq> set (upsert tbl rows)" by simp
  have "x \<in> set (upsert_row (upsert tbl rows) r)" if "x \<in> set rows" for x
  proof -
    from that snoc.prems have "day_of_week x \<noteq> day_of_week r" by (auto simp: image_iff)
    then have "\<not> same_key x r" by (simp add: same_key_def)
    with that ih show ?thesis by (intro upsert_row_keeps) auto
  qed
  then show ?case unfolding upsert_snoc using upsert_row_new[of r "upsert tbl rows"] by auto
qed

lemma saveSchedule_stores_rows:
  assumes "did \<noteq> []" "\<not> flt UpsertSchedules"
  shows "fst (saveSchedule flt db (Some did) ensured dayStates) = ScheduleLive \<and>
         set (schedule_rows did dayStates)
           \<subseteq> set (doctor_schedules (snd (saveSchedule flt db (Some did) ensured dayStates)))"
proof (cases "schedule_rows did dayStates = []")
  case True
  with assms show ?thesis by (simp add: saveSchedule_def Let_def)
next
  case False
  with assms show ?thesis
    using upsert_holds_rows[OF schedule_rows_distinct_days[of did dayStates]]
    by (simp add: saveSchedule_def Let_def)
qed

text \<open>
  The rows that \<^verbatim>\<open>saveSchedule\<close> computes and hands to the store. A weekday whose
  selection is a non-empty collection of clock times (written by \<open>toHHMM\<close>, below 100
  hours) gives exactly one row: it starts at the least selected time, ends 30 minutes after
  the greatest one and has \<open>is_available = true\<close>, whatever lies between the two was
  selected or not. A weekday without selected times gives no row. No row has equal start
  and end: the end of every row is later than its start. When the upsert goes through, the
  operation reports success and every computed row is in the store.
\<close>

lemma schedule_rows_per_weekday:
  "(\<forall>d<7. \<forall>st ms. dayStates d = Some st \<and> selected st = map toHHMM ms \<and> ms \<noteq> []
              \<and> (\<forall>m\<in>set ms. m < 6000) \<longrightarrow>
        filter (\<lambda>r. day_of_week r = d) (schedule_rows doctorId dayStates) =
          [\<lparr>schedule_doctor_id = doctorId, day_of_week = d,
            start_time = toHHMM (Min (set ms)), end_time = toHHMM (Max (set ms) + 30),
            is_available = True\<rparr>])
   \<and> (\<forall>d. (\<forall>st. dayStates d = Some st \<longrightarrow> selected st = []) \<longrightarrow>
        filter (\<lambda>r. day_of_week r = d) (schedule_rows doctorId dayStates) = [])
   \<and> (\<forall>r\<in>set (schedule_rows doctorId dayStates).
        start_time r \<noteq> end_time r
        \<and> (\<exists>s e. toMinutes (start_time r) = Some s \<and> toMinutes (end_time r) = Some e \<and> s < e)
        \<and> is_available r \<and> schedule_doctor_id r = doctorId \<and> day_of_week r < 7)
   \<and> (doctorId \<noteq> [] \<and> \<not> flt UpsertSchedules \<longrightarrow>
        fst (saveSchedule flt db (Some doctorId) ensured dayStates) = ScheduleLive
        \<and> set (schedule_rows doctorId dayStates)
             \<subseteq> set (doctor_schedules (snd (saveSchedule flt db (Some doctorId) ensured dayStates))))"
proof (intro conjI allI impI ballI)
  fix d st ms
  assume "d < 7" and h: "dayStates d = Some st \<and> selected st = map toHHMM ms \<and> ms \<noteq> []
              \<and> (\<forall>m\<in>set ms. m < 6000)"
  then show "filter (\<lambda>r. day_of_week r = d) (schedule_rows doctorId dayStates) =
          [\<lparr>schedule_doctor_id = doctorId, day_of_week = d,
            start_time = toHHMM (Min (set ms)), end_time = toHHMM (Max (set ms) + 30),
            is_available = True\<rparr>]"
    by (simp add: filter_schedule_rows day_rows_def day_row_selection)
next
  fix d assume "\<forall>st. dayStates d = Some st \<longrightarrow> selected st = []"
  then show "filter (\<lambda>r. day_of_week r = d) (schedule_rows doctorId dayStates) = []"
    by (auto simp: filter_schedule_rows day_rows_def day_row_empty split: option.splits)
next
  fix r assume r: "r \<in> set (schedule_rows doctorId dayStates)"
  note m = schedule_rows_member[OF r]
  from m show "start_time r \<noteq> end_time r" using start_neq_end by blast
  from m show "\<exists>s e. toMinutes (start_time r) = Some s \<and> toMinutes (end_time r) = Some e \<and> s < e"
    by blast
  from m show "is_available r" "schedule_doctor_id r = doctorId" "day_of_week r < 7" by simp_all
next
  assume a: "doctorId \<noteq> [] \<and> \<not> flt UpsertSchedules"
  then have d: "doctorId \<noteq> []" and u: "\<not> flt UpsertSchedules" by simp_all
  note s = saveSchedule_stores_rows[of doctorId flt db ensured dayStates, OF d u]
  from s show "fst (saveSchedule flt db (Some doctorId) ensured dayStates) = ScheduleLive"
    by (rule conjunct1)
  from s show "set (schedule_rows doctorId dayStates)
             \<subseteq> set (doctor_schedules (snd (saveSchedule flt db (Some doctorId) ensured dayStates)))"
    by (rule conjunct2)
qed

lemma schedule_rows_per_weekday_example:
  "schedule_rows ''d1'' sample_dayStates = [sample_window ''d1'' 1 ''08:00'' ''10:00'']
   \<and> filter (\<lambda>r. day_of_week r = 1) (schedule_rows ''d1'' sample_dayStates)
       = [\<lparr>schedule_doctor_id = ''d1'', day_of_week = 1,
           start_time = toHHMM 480, end_time = toHHMM (570 + 30), is_available = True\<rparr>]
   \<and> filter (\<lambda>r. day_of_week r = 2) (schedule_rows ''d1'' sample_dayStates) = []
   \<and> list_all (\<lambda>r. start_time r \<noteq> end_time r) (schedule_rows ''d1'' sample_dayStates)
   \<and> fst (saveSchedule no_faults old_schedule_store (Some ''d1'') None sample_dayStates) = ScheduleLive
   \<and> set (schedule_rows ''d1'' sample_dayStates)
        \<subseteq> set (doctor_schedules
                  (snd (saveSchedule no_faults old_schedule_store (Some ''d1'') None sample_dayStates)))
   \<and> getSchedules (snd (saveSchedule no_faults old_schedule_store (Some ''d1'') None
                          sample_dayStates)) ''d1''
       = [sample_window ''d1'' 1 ''08:00'' ''10:00'']"
proof -
  note t = schedule_rows_per_weekday[of sample_dayStates "''d1''" no_faults old_schedule_store None]
  have v: "schedule_rows ''d1'' sample_dayStates = [sample_window ''d1'' 1 ''08:00'' ''10:00'']"
    by code_simp
  have s: "sample_dayStates 1 = Some \<lparr>day_open = ''08:00'', day_close = ''17:00'',
                          selected = [''09:00'', ''08:00'', ''09:30'']\<rparr>"
    by (simp add: sample_dayStates_def)
  have m: "selected \<lparr>day_open = ''08:00'', day_close = ''17:00'',
                          selected = [''09:00'', ''08:00'', ''09:30'']\<rparr> = map toHHMM [540, 480, 570]"
    by code_simp
  have mn: "Min (set [540, 480, 570 :: nat]) = 480" "Max (set [540, 480, 570 :: nat]) = 570"
    by simp_all
  have lt: "(1::nat) < 7" by simp
  have pre: "sample_dayStates 1 = Some \<lparr>day_open = ''08:00'', day_close = ''17:00'',
                          selected = [''09:00'', ''08:00'', ''09:30'']\<rparr>
     \<and> selected \<lparr>day_open = ''08:00'', day_close = ''17:00'',
                          selected = [''09:00'', ''08:00'', ''09:30'']\<rparr> = map toHHMM [540, 480, 570]
     \<and> [540, 480, 570 :: nat] \<noteq> [] \<and> (\<forall>m\<in>set [540, 480, 570 :: nat]. m < 6000)"
    by (intro conjI s m) simp_all
  have "filter (\<lambda>r. day_of_week r = 1) (schedule_rows ''d1'' sample_dayStates)
       = [\<lparr>schedule_doctor_id = ''d1'', day_of_week = 1,
           start_time = toHHMM (Min (set [540, 480, 570])),
           end_time = toHHMM (Max (set [540, 480, 570]) + 30), is_available = True\<rparr>]"
    by (rule t[THEN conjunct1, rule_format, OF lt pre])
  then have c1: "filter (\<lambda>r. day_of_week r = 1) (schedule_rows ''d1'' sample_dayStates)
       = [\<lparr>schedule_doctor_id = ''d1'', day_of_week = 1,
           start_time = toHHMM 480, end_time = toHHMM (570 + 30), is_available = True\<rparr>]"
    by (simp only: mn)
  have "\<forall>st. sample_dayStates 2 = Some st \<longrightarrow> selected st = []"
    by (simp add: sample_dayStates_def)
  with t have c2: "filter (\<lambda>r. day_of_week r = 2) (schedule_rows ''d1'' sample_dayStates) = []"
    by blast
  from t have c3: "list_all (\<lambda>r. start_time r \<noteq> end_time r) (schedule_rows ''d1'' sample_dayStates)"
    unfolding list_all_iff by blast
  have "''d1'' \<noteq> [] \<and> \<not> no_faults UpsertSchedules" by (simp add: no_faults_def)
  with t have c4:
    "fst (saveSchedule no_faults old_schedule_store (Some ''d1'') None sample_dayStates) = ScheduleLive"
    "set (schedule_rows ''d1'' sample_dayStates)
        \<subseteq> set (doctor_schedules
                  (snd (saveSchedule no_faults old_schedule_store (Some ''d1'') None sample_dayStates)))"
    by blast+
  have c5: "getSchedules (snd (saveSchedule no_faults old_schedule_store (Some ''d1'') None
                          sample_dayStates)) ''d1''
       = [sample_window ''d1'' 1 ''08:00'' ''10:00'']"
    by code_simp
  from v c1 c2 c3 c4 c5 show ?thesis by (intro conjI)
qed

lemma saveSchedule_store_weekday:
  assumes "\<not> flt DeleteSchedules" "\<not> flt UpsertSchedules" "did \<noteq> []"
  shows "filter (\<lambda>r. schedule_doctor_id r = did \<and> day_of_week r = d)
           (doctor_schedules (snd (saveSchedule flt db (Some did) ensured dayStates)))
         = (if d < 7 then day_rows did dayStates d else [])"
proof -
  have "filter (\<lambda>r. schedule_doctor_id r = did \<and> day_of_week r = d)
           (doctor_schedules (snd (saveSchedule flt db (Some did) ensured dayStates)))
        = filter (\<lambda>r. day_of_week r = d)
            (getSchedules (snd (saveSchedule flt db (Some did) ensured dayStates)) did)"
    by (simp add: getSchedules_def conj_commute)
  then show ?thesis
    by (simp only: saveSchedule_read_back[OF assms] filter_schedule_rows)
qed


text \<open>
  C5. The claim: after \<^verbatim>\<open>saveSchedule\<close> has completed successfully, reading the
  doctor's schedule gives exactly the newly computed rows. \<open>saveSchedule_read_back\<close> above
  shows this when the delete request and the upsert go through. The answer of the delete
  request is not looked at, though: when the delete answers with an error and the upsert
  goes through, the operation still reports success, and a row of a weekday that is no
  longer selected stays in the store. Here doctor \<^verbatim>\<open>d1\<close> had a Tuesday row and saves a
  Monday selection only.
\<close>

theorem saveSchedule_unchecked_delete:
  "saveSchedule (\<lambda>r. r = DeleteSchedules) old_schedule_store (Some ''d1'') None sample_dayStates
     = (ScheduleLive,
        \<lparr>bookings = [],
         doctor_schedules = [sample_window ''d1'' 2 ''10:00'' ''11:00'',
                             sample_window ''d2'' 1 ''07:00'' ''08:00'',
                             sample_window ''d1'' 1 ''08:00'' ''10:00''],
         memberships = []\<rparr>)
   \<and> schedule_rows ''d1'' sample_dayStates = [sample_window ''d1'' 1 ''08:00'' ''10:00'']
   \<and> getSchedules (snd (saveSchedule (\<lambda>r. r = DeleteSchedules) old_schedule_store (Some ''d1'')
                          None sample_dayStates)) ''d1''
       = [sample_window ''d1'' 2 ''10:00'' ''11:00'', sample_window ''d1'' 1 ''08:00'' ''10:00'']"
  by code_simp

section \<open>The conflict check at write time\<close>

lemma direct_booking_conflict:
  assumes "\<not> flt SelectConflict"
      and "active_conflicts db (doctor_row_id doc) selectedDate selectedTime \<noteq> []"
  shows "direct_booking flt g now db uid doc selectedDate selectedTime patientNotes paymentMethod
           = (SlotUnavailable, db)"
  using assms by (simp add: direct_booking_def Let_def)

lemma direct_booking_free:
  assumes "active_conflicts db (doctor_row_id doc) selectedDate selectedTime = []"
      and "\<not> flt InsertBooking"
  shows "\<exists>b. fst (direct_booking flt g now db uid doc selectedDate selectedTime patientNotes
                     paymentMethod) = BookingCreatedPaymentPending (booking_id b)
           \<and> bookings (snd (direct_booking flt g now db uid doc selectedDate selectedTime
                     patientNotes paymentMethod)) = bookings db @ [b]
           \<and> doctor_id b = doctor_row_id doc \<and> appointment_date b = selectedDate
           \<and> appointment_time b = selectedTime \<and> status b = Pending"
  using assms by (simp add: direct_booking_def Let_def)

text \<open>
  C1. The claim: an active booking for (doctor, date, time) makes the creation fail with
  \<^verbatim>\<open>SlotUnavailable\<close>, and nothing is inserted. The final fallback of
  \<^verbatim>\<open>handleBooking\<close> does so when its conflict query is answered
  (\<open>direct_booking_conflict\<close>, \<open>direct_booking_free\<close>). Two paths fall short. The
  store below holds a cancelled and then a confirmed booking for the same slot:
  \<^verbatim>\<open>BookingsRepo.hasConflict\<close> reads one row, the cancelled one, and reports no
  conflict. And when the conflict query of the fallback answers with an error, the answer
  is taken as "no conflict" and a third booking for the slot is inserted.
\<close>

theorem conflict_check_misses_active_booking:
  "active_conflicts conflict_store ''d1'' ''2030-01-07'' ''09:00''
     = [sample_booking ''b2'' ''u2'' ''d1'' ''2030-01-07'' ''09:00'' Confirmed]
   \<and> hasConflict no_faults conflict_store ''d1'' ''2030-01-07'' ''09:00'' = Some False
   \<and> fst (direct_booking no_faults sample_gen_id ''t1'' conflict_store ''u3'' sample_doctor
             ''2030-01-07'' ''09:00'' [] cash) = SlotUnavailable
   \<and> fst (direct_booking (\<lambda>r. r = SelectConflict) sample_gen_id ''t1'' conflict_store ''u3''
             sample_doctor ''2030-01-07'' ''09:00'' [] cash)
       = BookingCreatedPaymentPending ''booking-2''
   \<and> length (bookings (snd (direct_booking (\<lambda>r. r = SelectConflict) sample_gen_id ''t1''
             conflict_store ''u3'' sample_doctor ''2030-01-07'' ''09:00'' [] cash))) = 3"
  by code_simp

section \<open>Booking fee and free credit\<close>

lemma single_Some: "single xs = Some x \<longleftrightarrow> xs = [x]"
  by (cases xs rule: single.cases) auto

lemma single_filter_member:
  assumes "single (filter P xs) = Some m" "r \<in> set xs" "P r"
  shows "r = m"
proof -
  from assms(1) have "filter P xs = [m]" by (simp add: single_Some)
  moreover from assms(2,3) have "r \<in> set (filter P xs)" by simp
  ultimately show ?thesis by simp
qed

lemma handleBooking_channels_down:
  assumes "\<not> create_primary_up env" "\<not> create_secondary_up env"
      and "selectedDate \<noteq> []" "selectedTime \<noteq> []"
  shows "handleBooking flt env now db (Some uid) (Some doc) selectedDate selectedTime patientNotes
           paymentMethod =
         (fst (direct_booking flt (gen_id env) now db uid doc selectedDate selectedTime patientNotes
                 paymentMethod),
          snd (direct_booking flt (gen_id env) now db uid doc selectedDate selectedTime patientNotes
                 paymentMethod),
          [(CreateBooking, Primary), (CreateBooking, Secondary)])"
  using assms by (simp add: handleBooking_def create_booking_attempts_def Let_def split_beta)

text \<open>
  A booking created by the final fallback of \<^verbatim>\<open>handleBooking\<close>. \<open>membership\<close> is what
  the membership query gives: the user's row when there is exactly one and the query is
  answered. \<open>free\<close> says that it is a premium membership with a positive number of free
  bookings. The stored bookings grow by one row, which is pending/pending, carries the fee 0
  when \<open>free\<close> holds and 1000 otherwise, and has \<open>total_amount = booking_fee\<close>. Without
  a consumed credit the memberships stay as they are. With one, and the update request going
  through, the user's row has one free booking less and every other row is unchanged; when
  the update answers with an error the memberships stay as they are.
\<close>

lemma direct_booking_fee_and_credit:
  assumes ok: "direct_booking flt g now db uid doc selectedDate selectedTime patientNotes
                 paymentMethod = (BookingCreatedPaymentPending i, db')"
    and mem: "membership = (if flt SelectMembership then None
                            else single (filter (\<lambda>m. member_user_id m = uid) (memberships db)))"
    and free: "free \<longleftrightarrow> (\<exists>m n. membership = Some m \<and> membership_type m = Premium
                                \<and> free_bookings_remaining m = Some n \<and> n > 0)"
  shows "\<exists>b. bookings db' = bookings db @ [b] \<and> booking_id b = i
           \<and> user_id b = uid \<and> doctor_id b = doctor_row_id doc
           \<and> appointment_date b = selectedDate \<and> appointment_time b = selectedTime
           \<and> status b = Pending \<and> payment_status b = PaymentPending
           \<and> booking_fee b = (if free then 0 else 1000) \<and> total_amount b = booking_fee b
           \<and> length (memberships db') = length (memberships db)
           \<and> (\<not> free \<or> flt UpdateMembership \<longrightarrow> memberships db' = memberships db)
           \<and> (free \<and> \<not> flt UpdateMembership \<longrightarrow>
                (\<forall>k < length (memberships db).
                   if member_user_id (memberships db ! k) = uid
                   then member_user_id (memberships db' ! k) = uid
                      \<and> membership_type (memberships db' ! k) = Premium
                      \<and> free_bookings_remaining (memberships db' ! k)
                          = map_option (\<lambda>n. n - 1) (free_bookings_remaining (memberships db ! k))
                   else memberships db' ! k = memberships db ! k))"
proof -
  let ?credit = "case membership of None \<Rightarrow> 0
                 | Some m \<Rightarrow> (case free_bookings_remaining m of None \<Rightarrow> 0 | Some n \<Rightarrow> n)"
  let ?dec = "case membership of None \<Rightarrow> False
              | Some m \<Rightarrow> membership_type m = Premium \<and> ?credit > 0"
  have dec: "?dec = free"
    unfolding free by (auto split: option.splits)
  let ?fee = "if ?dec then 0 else (1000::int)"
  let ?b = "\<lparr>booking_id = g (bookings db), user_id = uid, doctor_id = doctor_row_id doc,
             appointment_date = selectedDate, appointment_time = selectedTime,
             status = Pending, payment_status = PaymentPending,
             consultation_fee = doctor_consultation_fee doc,
             booking_fee = ?fee, total_amount = ?fee,
             patient_notes = notes_text patientNotes paymentMethod, updated_at = now\<rparr>"
  let ?ms = "if ?dec \<and> \<not> flt UpdateMembership
             then map (\<lambda>m. if member_user_id m = uid
                            then m\<lparr>free_bookings_remaining := Some (?credit - 1),
                                   member_updated_at := now\<rparr>
                            else m) (memberships db)
             else memberships db"
  have noconf: "\<not> 0 < length (if flt SelectConflict then []
                   else active_conflicts db (doctor_row_id doc) selectedDate selectedTime)"
    and ins: "\<not> flt InsertBooking"
    using ok by (auto simp: direct_booking_def Let_def split: if_splits)
  have res: "i = booking_id ?b" "bookings db' = bookings db @ [?b]" "memberships db' = ?ms"
    using ok noconf ins unfolding direct_booking_def Let_def mem[symmetric]
    by (auto split: if_splits)
  have row: "free_bookings_remaining r = Some (?credit) \<and> membership_type r = Premium"
    if "?dec" "\<not> flt UpdateMembership" "r \<in> set (memberships db)" "member_user_id r = uid" for r
  proof -
    from that(1) obtain m where m: "membership = Some m" "membership_type m = Premium" "?credit > 0"
      by (auto split: option.splits)
    then have "single (filter (\<lambda>m. member_user_id m = uid) (memberships db)) = Some m"
      using mem by (auto split: if_splits)
    from single_filter_member[OF this that(3)] that(4) have "r = m" by simp
    with m show ?thesis by (auto split: option.splits)
  qed
  have fee: "booking_fee ?b = (if free then 0 else 1000)" "total_amount ?b = booking_fee ?b"
    using dec by simp_all
  have len: "length (memberships db') = length (memberships db)"
    unfolding res(3) by simp
  have unchanged: "\<not> free \<or> flt UpdateMembership \<longrightarrow> memberships db' = memberships db"
    unfolding res(3) dec by auto
  have changed: "free \<and> \<not> flt UpdateMembership \<longrightarrow>
                (\<forall>k < length (memberships db).
                   if member_user_id (memberships db ! k) = uid
                   then member_user_id (memberships db' ! k) = uid
                      \<and> membership_type (memberships db' ! k) = Premium
                      \<and> free_bookings_remaining (memberships db' ! k)
                          = map_option (\<lambda>n. n - 1) (free_bookings_remaining (memberships db ! k))
                   else memberships db' ! k = memberships db ! k)"
  proof (intro impI allI)
    fix k assume f: "free \<and> \<not> flt UpdateMembership" and k: "k < length (memberships db)"
    then have d: "?dec" "\<not> flt UpdateMembership" using dec by simp_all
    show "if member_user_id (memberships db ! k) = uid
          then member_user_id (memberships db' ! k) = uid
             \<and> membership_type (memberships db' ! k) = Premium
             \<and> free_bookings_remaining (memberships db' ! k)
                 = map_option (\<lambda>n. n - 1) (free_bookings_remaining (memberships db ! k))
          else memberships db' ! k = memberships db ! k"
    proof (cases "member_user_id (memberships db ! k) = uid")
      case True
      from row[OF d nth_mem[OF k] True] show ?thesis
        unfolding res(3) using d k True by simp
    next
      case False
      then show ?thesis unfolding res(3) using d k by simp
    qed
  qed
  have "bookings db' = bookings db @ [?b] \<and> booking_id ?b = i
           \<and> user_id ?b = uid \<and> doctor_id ?b = doctor_row_id doc
           \<and> appointment_date ?b = selectedDate \<and> appointment_time ?b = selectedTime
           \<and> status ?b = Pending \<and> payment_status ?b = PaymentPending"
    using res by simp
  with fee len unchanged changed show ?thesis by blast
qed

lemma direct_booking_fee_and_credit_example:
  "fst (direct_booking no_faults sample_gen_id ''t1'' premium_store ''u1'' sample_doctor
          ''2030-01-07'' ''09:00'' ''hi'' cash) = BookingCreatedPaymentPending ''booking-0''
   \<and> (\<exists>b. bookings (snd (direct_booking no_faults sample_gen_id ''t1'' premium_store ''u1''
                 sample_doctor ''2030-01-07'' ''09:00'' ''hi'' cash)) = bookings premium_store @ [b]
          \<and> status b = Pending \<and> payment_status b = PaymentPending
          \<and> booking_fee b = 0 \<and> total_amount b = 0)
   \<and> map free_bookings_remaining (memberships premium_store) = [Some 1, Some 5]
   \<and> map free_bookings_remaining (memberships (snd (direct_booking no_faults sample_gen_id ''t1''
          premium_store ''u1'' sample_doctor ''2030-01-07'' ''09:00'' ''hi'' cash))) = [Some 0, Some 5]
   \<and> fst (direct_booking no_faults sample_gen_id ''t2''
          (snd (direct_booking no_faults sample_gen_id ''t1'' premium_store ''u1'' sample_doctor
                  ''2030-01-07'' ''09:00'' ''hi'' cash))
          ''u1'' sample_doctor ''2030-01-07'' ''09:30'' ''hi'' cash)
       = BookingCreatedPaymentPending ''booking-1''
   \<and> (\<exists>b. bookings (snd (direct_booking no_faults sample_gen_id ''t2''
                 (snd (direct_booking no_faults sample_gen_id ''t1'' premium_store ''u1''
                         sample_doctor ''2030-01-07'' ''09:00'' ''hi'' cash))
                 ''u1'' sample_doctor ''2030-01-07'' ''09:30'' ''hi'' cash))
            = bookings (snd (direct_booking no_faults sample_gen_id ''t1'' premium_store ''u1''
                         sample_doctor ''2030-01-07'' ''09:00'' ''hi'' cash)) @ [b]
          \<and> status b = Pending \<and> payment_status b = PaymentPending
          \<and> booking_fee b = 1000 \<and> total_amount b = 1000)
   \<and> map free_bookings_remaining (memberships (snd (direct_booking no_faults sample_gen_id ''t2''
          (snd (direct_booking no_faults sample_gen_id ''t1'' premium_store ''u1'' sample_doctor
                  ''2030-01-07'' ''09:00'' ''hi'' cash))
          ''u1'' sample_doctor ''2030-01-07'' ''09:30'' ''hi'' cash))) = [Some 0, Some 5]"
proof -
  let ?r1 = "direct_booking no_faults sample_gen_id ''t1'' premium_store ''u1'' sample_doctor
               ''2030-01-07'' ''09:00'' ''hi'' cash"
  let ?r2 = "direct_booking no_faults sample_gen_id ''t2'' (snd ?r1) ''u1'' sample_doctor
               ''2030-01-07'' ''09:30'' ''hi'' cash"
  let ?m0 = "\<lparr>member_user_id = ''u1'', membership_type = Premium,
                free_bookings_remaining = Some 1, member_updated_at = ''t0''\<rparr>"
  let ?m1 = "\<lparr>member_user_id = ''u1'', membership_type = Premium,
                free_bookings_remaining = Some 0, member_updated_at = ''t1''\<rparr>"
  have f1: "fst ?r1 = BookingCreatedPaymentPending ''booking-0''" by code_simp
  have f2: "fst ?r2 = BookingCreatedPaymentPending ''booking-1''" by code_simp
  have ok1: "?r1 = (BookingCreatedPaymentPending ''booking-0'', snd ?r1)"
    using f1 by (simp add: prod_eq_iff)
  have ok2: "?r2 = (BookingCreatedPaymentPending ''booking-1'', snd ?r2)"
    using f2 by (simp add: prod_eq_iff)
  have m1: "Some ?m0 = (if no_faults SelectMembership then None
              else single (filter (\<lambda>m. member_user_id m = ''u1'') (memberships premium_store)))"
    by code_simp
  have m2: "Some ?m1 = (if no_faults SelectMembership then None
              else single (filter (\<lambda>m. member_user_id m = ''u1'') (memberships (snd ?r1))))"
    by code_simp
  have c1: "True \<longleftrightarrow> (\<exists>m n. Some ?m0 = Some m \<and> membership_type m = Premium
                                \<and> free_bookings_remaining m = Some n \<and> n > 0)"
    by simp
  have c2: "False \<longleftrightarrow> (\<exists>m n. Some ?m1 = Some m \<and> membership_type m = Premium
                                \<and> free_bookings_remaining m = Some n \<and> n > 0)"
    by simp
  from direct_booking_fee_and_credit[OF ok1 m1 c1]
  have b1: "\<exists>b. bookings (snd ?r1) = bookings premium_store @ [b]
          \<and> status b = Pending \<and> payment_status b = PaymentPending
          \<and> booking_fee b = 0 \<and> total_amount b = 0"
    by (elim exE conjE) (rule exI, simp)
  from direct_booking_fee_and_credit[OF ok2 m2 c2]
  have b2: "\<exists>b. bookings (snd ?r2) = bookings (snd ?r1) @ [b]
          \<and> status b = Pending \<and> payment_status b = PaymentPending
          \<and> booking_fee b = 1000 \<and> total_amount b = 1000"
    by (elim exE conjE) (rule exI, simp)
  have e0: "map free_bookings_remaining (memberships premium_store) = [Some 1, Some 5]"
    by code_simp
  have e1: "map free_bookings_remaining (memberships (snd ?r1)) = [Some 0, Some 5]"
    by code_simp
  have e2: "map free_bookings_remaining (memberships (snd ?r2)) = [Some 0, Some 5]"
    by code_simp
  from f1 b1 e0 e1 f2 b2 e2 show ?thesis by (intro conjI)
qed


section \<open>Channels and fallbacks of \<^verbatim>\<open>handleBooking\<close>\<close>

lemma create_booking_fn_refused:
  "fst (create_booking_fn g now db uid doc date time_t notes) = None
     \<Longrightarrow> snd (create_booking_fn g now db uid doc date time_t notes) = db"
  by (simp add: create_booking_fn_def Let_def split: if_splits)

lemma create_booking_fn_bookings:
  "\<exists>new. bookings (snd (create_booking_fn g now db uid doc date time_t notes)) = bookings db @ new"
  by (simp add: create_booking_fn_def Let_def)

lemma direct_booking_bookings:
  "\<exists>new. bookings (snd (direct_booking flt g now db uid doc selectedDate selectedTime patientNotes
                            paymentMethod)) = bookings db @ new"
  by (simp add: direct_booking_def Let_def)

lemma create_booking_attempts_result:
  assumes r: "r = fst (create_booking_fn (gen_id env) now db uid doc selectedDate selectedTime notes)"
  shows "fst (create_booking_attempts env now db uid doc selectedDate selectedTime notes) =
           (if create_primary_up env \<or> create_secondary_up env then r else None)"
    and "snd (snd (create_booking_attempts env now db uid doc selectedDate selectedTime notes)) =
           [(CreateBooking, Primary)]
           @ (if create_primary_up env \<and> r \<noteq> None then [] else [(CreateBooking, Secondary)])"
proof -
  let ?c = "create_booking_fn (gen_id env) now db uid doc selectedDate selectedTime notes"
  have e: "fst ?c = r" using r by simp
  have d: "r = None \<Longrightarrow> snd ?c = db" using e create_booking_fn_refused by metis
  show "fst (create_booking_attempts env now db uid doc selectedDate selectedTime notes) =
           (if create_primary_up env \<or> create_secondary_up env then r else None)"
    using e d by (cases r) (simp_all add: create_booking_attempts_def Let_def split_beta)
  show "snd (snd (create_booking_attempts env now db uid doc selectedDate selectedTime notes)) =
           [(CreateBooking, Primary)]
           @ (if create_primary_up env \<and> r \<noteq> None then [] else [(CreateBooking, Secondary)])"
    using e d by (cases r) (simp_all add: create_booking_attempts_def Let_def split_beta)
qed

lemma payment_attempts_trace:
  "snd (payment_attempts env) =
     [(CreatePayment, Primary)]
     @ (if payment_url (pay_primary env) = None then [(CreatePayment, Secondary)] else [])"
  by (simp add: payment_attempts_def Let_def)

lemma handleBooking_trace:
  assumes "selectedDate \<noteq> []" "selectedTime \<noteq> []"
    and r: "r = fst (create_booking_fn (gen_id env) now db uid doc selectedDate selectedTime
                      (notes_text patientNotes paymentMethod))"
  shows "snd (snd (handleBooking flt env now db (Some uid) (Some doc) selectedDate selectedTime
                     patientNotes paymentMethod)) =
     [(CreateBooking, Primary)]
     @ (if create_primary_up env \<and> r \<noteq> None then [] else [(CreateBooking, Secondary)])
     @ (if (create_primary_up env \<or> create_secondary_up env) \<and> r \<noteq> None
        then [(CreatePayment, Primary)]
             @ (if payment_url (pay_primary env) = None then [(CreatePayment, Secondary)] else [])
        else [])"
proof -
  let ?a = "create_booking_attempts env now db uid doc selectedDate selectedTime
              (notes_text patientNotes paymentMethod)"
  note c = create_booking_attempts_result[OF r]
  show ?thesis
  proof (cases "fst ?a")
    case None
    then have n: "\<not> ((create_primary_up env \<or> create_secondary_up env) \<and> r \<noteq> None)"
      using c(1) by (auto split: if_splits)
    have "snd (snd (handleBooking flt env now db (Some uid) (Some doc) selectedDate selectedTime
                     patientNotes paymentMethod)) = snd (snd ?a)"
      using assms(1,2) None by (simp add: handleBooking_def split_beta)
    then show ?thesis using n c(2) by simp
  next
    case (Some b)
    then have y: "(create_primary_up env \<or> create_secondary_up env) \<and> r \<noteq> None"
      using c(1) by (auto split: if_splits)
    have "snd (snd (handleBooking flt env now db (Some uid) (Some doc) selectedDate selectedTime
                     patientNotes paymentMethod)) = snd (snd ?a) @ snd (payment_attempts env)"
      using assms(1,2) Some by (simp add: handleBooking_def split_beta split: option.splits)
    then show ?thesis using y c(2) payment_attempts_trace by simp
  qed
qed

lemma invokeWithFallback_channels:
  "snd (invokeWithFallback primary secondary) =
     (case primary of InvokeData d \<Rightarrow> [Primary] | InvokeError e \<Rightarrow> [Primary, Secondary])"
  by (simp add: invokeWithFallback_def split: invoke_reply.splits fetch_reply.splits bool.splits)

lemma create_booking_attempts_bookings:
  "\<exists>new. bookings (fst (snd (create_booking_attempts env now db uid doc selectedDate selectedTime
                                 notes))) = bookings db @ new"
proof -
  let ?c = "create_booking_fn (gen_id env) now db uid doc selectedDate selectedTime notes"
  obtain n1 where n1: "bookings (snd ?c) = bookings db @ n1"
    using create_booking_fn_bookings by blast
  obtain n2 where n2: "bookings (snd (create_booking_fn (gen_id env) now (snd ?c) uid doc
                          selectedDate selectedTime notes)) = bookings (snd ?c) @ n2"
    using create_booking_fn_bookings by blast
  obtain n3 where n3: "bookings (snd (create_booking_fn (gen_id env) now db uid doc
                          selectedDate selectedTime notes)) = bookings db @ n3"
    using create_booking_fn_bookings by blast
  show ?thesis
    using n1 n2 n3 by (auto simp: create_booking_attempts_def Let_def split_beta)
qed

lemma handleBooking_keeps_bookings:
  "\<exists>new. bookings (fst (snd (handleBooking flt env now db user doc selectedDate selectedTime
                                 patientNotes paymentMethod))) = bookings db @ new"
proof (cases "\<exists>uid d. user = Some uid \<and> doc = Some d \<and> selectedDate \<noteq> [] \<and> selectedTime \<noteq> []")
  case False
  then have "fst (snd (handleBooking flt env now db user doc selectedDate selectedTime
                         patientNotes paymentMethod)) = db"
    by (auto simp: handleBooking_def split: option.splits)
  then show ?thesis by simp
next
  case True
  then obtain uid d where u: "user = Some uid" "doc = Some d" "selectedDate \<noteq> []" "selectedTime \<noteq> []"
    by blast
  let ?a = "create_booking_attempts env now db uid d selectedDate selectedTime
              (notes_text patientNotes paymentMethod)"
  obtain n1 where n1: "bookings (fst (snd ?a)) = bookings db @ n1"
    using create_booking_attempts_bookings by blast
  obtain n2 where n2: "bookings (snd (direct_booking flt (gen_id env) now (fst (snd ?a)) uid d
                          selectedDate selectedTime patientNotes paymentMethod))
                       = bookings (fst (snd ?a)) @ n2"
    using direct_booking_bookings by blast
  have "fst (snd (handleBooking flt env now db user doc selectedDate selectedTime
                         patientNotes paymentMethod)) = fst (snd ?a)
      \<or> fst (snd (handleBooking flt env now db user doc selectedDate selectedTime
                         patientNotes paymentMethod))
         = snd (direct_booking flt (gen_id env) now (fst (snd ?a)) uid d
                          selectedDate selectedTime patientNotes paymentMethod)"
    using u by (simp add: handleBooking_def split_beta split: option.splits)
  then show ?thesis using n1 n2 by auto
qed

text \<open>
  C6. The claim: when payment initiation fails on both channels, the flow creates the
  booking directly with \<open>payment_status = pending\<close> and reports that payment can be
  retried later; a created booking is never discarded. No path of \<^verbatim>\<open>handleBooking\<close>
  removes or changes a stored booking (\<open>handleBooking_keeps_bookings\<close>). But when the
  booking was created through \<^verbatim>\<open>create-booking\<close> and both payment channels fail, the
  final fallback runs its conflict query, finds the booking just created, and the outcome is
  \<^verbatim>\<open>Slot Unavailable\<close>; the retry-later outcome is reached only when the booking
  functions themselves are unreachable (last conjunct).
\<close>

theorem payment_failure_reports_slot_unavailable:
  "fst (handleBooking no_faults payment_down_env ''t1'' empty_store (Some ''u1'') (Some sample_doctor)
          ''2030-01-07'' ''09:00'' ''hi'' card) = SlotUnavailable
   \<and> map (\<lambda>b. (booking_id b, user_id b, appointment_time b, status b, payment_status b))
        (bookings (fst (snd (handleBooking no_faults payment_down_env ''t1'' empty_store (Some ''u1'')
          (Some sample_doctor) ''2030-01-07'' ''09:00'' ''hi'' card))))
       = [(''booking-0'', ''u1'', ''09:00'', Pending, PaymentPending)]
   \<and> snd (snd (handleBooking no_faults payment_down_env ''t1'' empty_store (Some ''u1'')
          (Some sample_doctor) ''2030-01-07'' ''09:00'' ''hi'' card))
       = [(CreateBooking, Primary), (CreatePayment, Primary), (CreatePayment, Secondary)]
   \<and> fst (handleBooking no_faults down_env ''t1'' empty_store (Some ''u1'') (Some sample_doctor)
          ''2030-01-07'' ''09:00'' ''hi'' card) = BookingCreatedPaymentPending ''booking-0''"
  by code_simp

text \<open>
  C7, as the code has it. \<^verbatim>\<open>invokeWithFallback\<close> tries the primary channel once and
  the secondary channel exactly when the primary answers with an error of any kind.
  \<^verbatim>\<open>handleBooking\<close>, once its fields are filled in, tries \<^verbatim>\<open>create-booking\<close> on the
  primary channel once and on the secondary one exactly when the primary gave no booking (the
  channel is down, or the operation refused); with a booking it tries
  \<^verbatim>\<open>create-payfast-payment\<close> on the primary channel once and on the secondary one exactly
  when the primary gave no payment URL. No attempt is made twice.
\<close>

theorem secondary_channel_after_any_failure:
  "snd (invokeWithFallback primary secondary) =
     (case primary of InvokeData d \<Rightarrow> [Primary] | InvokeError e \<Rightarrow> [Primary, Secondary])
   \<and> (selectedDate \<noteq> [] \<and> selectedTime \<noteq> [] \<longrightarrow>
        (let tr = snd (snd (handleBooking flt env now db (Some uid) (Some doc) selectedDate
                              selectedTime patientNotes paymentMethod));
             r = fst (create_booking_fn (gen_id env) now db uid doc selectedDate selectedTime
                        (notes_text patientNotes paymentMethod))
         in tr = [(CreateBooking, Primary)]
                 @ (if create_primary_up env \<and> r \<noteq> None then [] else [(CreateBooking, Secondary)])
                 @ (if (create_primary_up env \<or> create_secondary_up env) \<and> r \<noteq> None
                    then [(CreatePayment, Primary)]
                         @ (if payment_url (pay_primary env) = None
                            then [(CreatePayment, Secondary)] else [])
                    else [])
            \<and> distinct tr))"
proof (intro conjI impI)
  show "snd (invokeWithFallback primary secondary) =
     (case primary of InvokeData d \<Rightarrow> [Primary] | InvokeError e \<Rightarrow> [Primary, Secondary])"
    by (rule invokeWithFallback_channels)
next
  assume a: "selectedDate \<noteq> [] \<and> selectedTime \<noteq> []"
  then have t: "snd (snd (handleBooking flt env now db (Some uid) (Some doc) selectedDate
                              selectedTime patientNotes paymentMethod)) =
     [(CreateBooking, Primary)]
     @ (if create_primary_up env
           \<and> fst (create_booking_fn (gen_id env) now db uid doc selectedDate selectedTime
                        (notes_text patientNotes paymentMethod)) \<noteq> None
        then [] else [(CreateBooking, Secondary)])
     @ (if (create_primary_up env \<or> create_secondary_up env)
           \<and> fst (create_booking_fn (gen_id env) now db uid doc selectedDate selectedTime
                        (notes_text patientNotes paymentMethod)) \<noteq> None
        then [(CreatePayment, Primary)]
             @ (if payment_url (pay_primary env) = None then [(CreatePayment, Secondary)] else [])
        else [])"
    by (intro handleBooking_trace) simp_all
  show "let tr = snd (snd (handleBooking flt env now db (Some uid) (Some doc) selectedDate
                              selectedTime patientNotes paymentMethod));
             r = fst (create_booking_fn (gen_id env) now db uid doc selectedDate selectedTime
                        (notes_text patientNotes paymentMethod))
         in tr = [(CreateBooking, Primary)]
                 @ (if create_primary_up env \<and> r \<noteq> None then [] else [(CreateBooking, Secondary)])
                 @ (if (create_primary_up env \<or> create_secondary_up env) \<and> r \<noteq> None
                    then [(CreatePayment, Primary)]
                         @ (if payment_url (pay_primary env) = None
                            then [(CreatePayment, Secondary)] else [])
                    else [])
            \<and> distinct tr"
    unfolding Let_def t by simp
qed

theorem secondary_channel_after_any_failure_witness:
  "''2030-01-07'' \<noteq> [] \<and> ''09:00'' \<noteq> []
   \<and> snd (snd (handleBooking no_faults payment_down_env ''t1'' conflict_store (Some ''u3'')
          (Some sample_doctor) ''2030-01-07'' ''09:00'' [] cash))
       = [(CreateBooking, Primary), (CreateBooking, Secondary)]
   \<and> snd (snd (handleBooking no_faults payment_down_env ''t1'' empty_store (Some ''u3'')
          (Some sample_doctor) ''2030-01-07'' ''09:00'' [] cash))
       = [(CreateBooking, Primary), (CreatePayment, Primary), (CreatePayment, Secondary)]"
proof -
  have h: "''2030-01-07'' \<noteq> [] \<and> ''09:00'' \<noteq> []" by simp
  have r1: "fst (create_booking_fn (gen_id payment_down_env) ''t1'' conflict_store ''u3''
               sample_doctor ''2030-01-07'' ''09:00'' (notes_text [] cash)) = None"
    by code_simp
  have r2: "fst (create_booking_fn (gen_id payment_down_env) ''t1'' empty_store ''u3''
               sample_doctor ''2030-01-07'' ''09:00'' (notes_text [] cash)) \<noteq> None"
    by code_simp
  have e: "create_primary_up payment_down_env" "create_secondary_up payment_down_env"
          "payment_url (pay_primary payment_down_env) = None"
    by (simp_all add: payment_down_env_def)
  from secondary_channel_after_any_failure[THEN conjunct2, rule_format, OF h,
        of no_faults payment_down_env "''t1''" conflict_store "''u3''" sample_doctor "[]" cash]
  have t1: "snd (snd (handleBooking no_faults payment_down_env ''t1'' conflict_store (Some ''u3'')
          (Some sample_doctor) ''2030-01-07'' ''09:00'' [] cash))
       = [(CreateBooking, Primary), (CreateBooking, Secondary)]"
    unfolding Let_def r1 using e by simp
  from secondary_channel_after_any_failure[THEN conjunct2, rule_format, OF h,
        of no_faults payment_down_env "''t1''" empty_store "''u3''" sample_doctor "[]" cash]
  have t2: "snd (snd (handleBooking no_faults payment_down_env ''t1'' empty_store (Some ''u3'')
          (Some sample_doctor) ''2030-01-07'' ''09:00'' [] cash))
       = [(CreateBooking, Primary), (CreatePayment, Primary), (CreatePayment, Secondary)]"
    unfolding Let_def using r2 e by simp
  from h t1 t2 show ?thesis by blast
qed

text \<open>
  C7 as stated fails: the slot is taken, the primary channel is up and \<^verbatim>\<open>create-booking\<close>
  refuses the request, and the secondary channel is tried all the same; likewise
  \<^verbatim>\<open>invokeWithFallback\<close> after a rejection with status 409.
\<close>

theorem secondary_channel_after_rejection:
  "fst (create_booking_fn sample_gen_id ''t1'' conflict_store ''u3'' sample_doctor
          ''2030-01-07'' ''09:00'' (notes_text [] cash)) = None
   \<and> create_primary_up payment_down_env
   \<and> snd (snd (handleBooking no_faults payment_down_env ''t1'' conflict_store (Some ''u3'')
          (Some sample_doctor) ''2030-01-07'' ''09:00'' [] cash))
       = [(CreateBooking, Primary), (CreateBooking, Secondary)]
   \<and> snd (invokeWithFallback (InvokeError (Rejection 409)) (Response False ()))
       = [Primary, Secondary]"
  by code_simp

section \<open>Patient cancellation\<close>

lemma cancelBooking_effect:
  "doctor_schedules (snd (cancelBooking flt db bookingId)) = doctor_schedules db"
  "memberships (snd (cancelBooking flt db bookingId)) = memberships db"
  "length (bookings (snd (cancelBooking flt db bookingId))) = length (bookings db)"
  "i < length (bookings db) \<Longrightarrow>
     bookings (snd (cancelBooking flt db bookingId)) ! i =
       (if booking_id (bookings db ! i) = bookingId \<and> \<not> flt UpdateBooking
        then (bookings db ! i)\<lparr>status := Cancelled\<rparr> else bookings db ! i)"
  by (simp_all add: cancelBooking_def)

lemma click_cancel_gate:
  assumes "fst (click_cancel flt parseDate now_ms shown db) \<noteq> NotOffered"
  shows "status shown = Pending
       \<and> (\<exists>t. parseDate (appointment_date shown) = Some t \<and> now_ms < t)
       \<and> click_cancel flt parseDate now_ms shown db = cancelBooking flt db (booking_id shown)"
  using assms
  by (auto simp: click_cancel_def cancel_offered_def split: if_splits option.splits)

text \<open>
  C8. The claim: the patient's cancellation cancels a booking only while it is pending and
  its date lies in the future, and changes nothing but its status. The write changes only
  the status of the rows with the given id (\<open>cancelBooking_effect\<close>), and the button is
  offered only for a row shown as pending with a future date (\<open>click_cancel_gate\<close>). The
  write itself carries no condition on status or date, though: the patient's page shows the
  booking as pending, the doctor approves it, and the click on the page still cancels the
  booking, now confirmed.
\<close>

theorem stale_page_cancels_confirmed_booking:
  "fetchBookings pending_store ''u1''
     = [sample_booking ''b1'' ''u1'' ''d1'' ''2030-01-07'' ''09:00'' Pending]
   \<and> map status (bookings (approveBooking no_faults ''t1'' (Some ''d1'') pending_store ''b1''))
       = [Confirmed]
   \<and> fst (click_cancel no_faults sample_parseDate 1890000000000
             (sample_booking ''b1'' ''u1'' ''d1'' ''2030-01-07'' ''09:00'' Pending)
             (approveBooking no_faults ''t1'' (Some ''d1'') pending_store ''b1'')) = CancelSuccess
   \<and> map status (bookings (snd (click_cancel no_faults sample_parseDate 1890000000000
             (sample_booking ''b1'' ''u1'' ''d1'' ''2030-01-07'' ''09:00'' Pending)
             (approveBooking no_faults ''t1'' (Some ''d1'') pending_store ''b1''))))
       = [Cancelled]
   \<and> map status (bookings (snd (cancelBooking no_faults
             (approveBooking no_faults ''t1'' (Some ''d1'') pending_store ''b1'') ''b1'')))
       = [Cancelled]"
  by code_simp

section \<open>Doctor approval and rejection touch pending bookings of the acting doctor only\<close>

lemma set_status_if_pending_nth:
  assumes "i < length (bookings db)"
  shows "bookings (set_status_if_pending st flt now doctorInfo db bookingId) ! i =
     (if booking_id (bookings db ! i) = bookingId \<and> doctorInfo = Some (doctor_id (bookings db ! i))
         \<and> status (bookings db ! i) = Pending \<and> \<not> flt UpdateBooking
      then (bookings db ! i)\<lparr>status := st, updated_at := now\<rparr>
      else bookings db ! i)"
  using assms by (cases doctorInfo) (simp_all add: set_status_if_pending_def)

lemma set_status_if_pending_frame:
  "length (bookings (set_status_if_pending st flt now doctorInfo db bookingId)) = length (bookings db)"
  "doctor_schedules (set_status_if_pending st flt now doctorInfo db bookingId) = doctor_schedules db"
  "memberships (set_status_if_pending st flt now doctorInfo db bookingId) = memberships db"
  by (cases doctorInfo; simp add: set_status_if_pending_def)+

text \<open>
  C9. \<^verbatim>\<open>approveBooking\<close> and \<^verbatim>\<open>rejectBooking\<close> leave the number of bookings, the
  schedules and the memberships as they are. A booking is rewritten only when its id is the
  given one, it belongs to the acting doctor, its status is pending and the update request
  goes through; it then differs from the stored row in \<open>status\<close> (confirmed, respectively
  cancelled) and \<open>updated_at\<close> only. Every other booking, in particular one that is
  confirmed, cancelled or completed or that belongs to another doctor, stays as it is.
\<close>

theorem approve_reject_only_pending_own:
  "let approved = approveBooking flt now doctorInfo db bookingId;
       rejected = rejectBooking flt now doctorInfo db bookingId
   in length (bookings approved) = length (bookings db)
    \<and> length (bookings rejected) = length (bookings db)
    \<and> doctor_schedules approved = doctor_schedules db \<and> memberships approved = memberships db
    \<and> doctor_schedules rejected = doctor_schedules db \<and> memberships rejected = memberships db
    \<and> (\<forall>i < length (bookings db).
          let b = bookings db ! i; a = bookings approved ! i; r = bookings rejected ! i in
            (if booking_id b = bookingId \<and> doctorInfo = Some (doctor_id b) \<and> status b = Pending
                \<and> \<not> flt UpdateBooking
             then a = b\<lparr>status := Confirmed, updated_at := now\<rparr>
                \<and> r = b\<lparr>status := Cancelled, updated_at := now\<rparr>
             else a = b \<and> r = b))"
proof -
  have "(if booking_id (bookings db ! i) = bookingId \<and> doctorInfo = Some (doctor_id (bookings db ! i))
           \<and> status (bookings db ! i) = Pending \<and> \<not> flt UpdateBooking
      then bookings (set_status_if_pending Confirmed flt now doctorInfo db bookingId) ! i
             = (bookings db ! i)\<lparr>status := Confirmed, updated_at := now\<rparr>
         \<and> bookings (set_status_if_pending Cancelled flt now doctorInfo db bookingId) ! i
             = (bookings db ! i)\<lparr>status := Cancelled, updated_at := now\<rparr>
      else bookings (set_status_if_pending Confirmed flt now doctorInfo db bookingId) ! i = bookings db ! i
         \<and> bookings (set_status_if_pending Cancelled flt now doctorInfo db bookingId) ! i = bookings db ! i)"
    if i: "i < length (bookings db)" for i
  proof (cases "booking_id (bookings db ! i) = bookingId \<and> doctorInfo = Some (doctor_id (bookings db ! i))
           \<and> status (bookings db ! i) = Pending \<and> \<not> flt UpdateBooking")
    case True
    show ?thesis
      unfolding set_status_if_pending_nth[OF i] using True by (simp only: if_True simp_thms)
  next
    case False
    show ?thesis
      unfolding set_status_if_pending_nth[OF i] using False by (simp only: if_False simp_thms)
  qed
  then have rows: "\<forall>i<length (bookings db).
      (if booking_id (bookings db ! i) = bookingId \<and> doctorInfo = Some (doctor_id (bookings db ! i))
           \<and> status (bookings db ! i) = Pending \<and> \<not> flt UpdateBooking
      then bookings (set_status_if_pending Confirmed flt now doctorInfo db bookingId) ! i
             = (bookings db ! i)\<lparr>status := Confirmed, updated_at := now\<rparr>
         \<and> bookings (set_status_if_pending Cancelled flt now doctorInfo db bookingId) ! i
             = (bookings db ! i)\<lparr>status := Cancelled, updated_at := now\<rparr>
      else bookings (set_status_if_pending Confirmed flt now doctorInfo db bookingId) ! i = bookings db ! i
         \<and> bookings (set_status_if_pending Cancelled flt now doctorInfo db bookingId) ! i = bookings db ! i)"
    by blast
  show ?thesis
    unfolding approveBooking_def rejectBooking_def Let_def
    by (intro conjI) (rule set_status_if_pending_frame rows)+
qed

theorem approve_reject_only_pending_own_witness:
  "bookings (approveBooking no_faults ''t1'' (Some ''d1'')
      \<lparr>bookings = [sample_booking ''b1'' ''u'' ''d1'' ''2030-01-07'' ''09:00'' Pending,
                   sample_booking ''b1'' ''u'' ''d1'' ''2030-01-07'' ''09:00'' Confirmed,
                   sample_booking ''b1'' ''u'' ''d2'' ''2030-01-07'' ''09:00'' Pending],
       doctor_schedules = [], memberships = []\<rparr> ''b1'')
    = [(sample_booking ''b1'' ''u'' ''d1'' ''2030-01-07'' ''09:00'' Pending)
          \<lparr>status := Confirmed, updated_at := ''t1''\<rparr>,
       sample_booking ''b1'' ''u'' ''d1'' ''2030-01-07'' ''09:00'' Confirmed,
       sample_booking ''b1'' ''u'' ''d2'' ''2030-01-07'' ''09:00'' Pending]
   \<and> bookings (rejectBooking no_faults ''t1'' (Some ''d1'')
      \<lparr>bookings = [sample_booking ''b1'' ''u'' ''d1'' ''2030-01-07'' ''09:00'' Pending,
                   sample_booking ''b1'' ''u'' ''d1'' ''2030-01-07'' ''09:00'' Confirmed,
                   sample_booking ''b1'' ''u'' ''d2'' ''2030-01-07'' ''09:00'' Pending],
       doctor_schedules = [], memberships = []\<rparr> ''b1'')
    = [(sample_booking ''b1'' ''u'' ''d1'' ''2030-01-07'' ''09:00'' Pending)
          \<lparr>status := Cancelled, updated_at := ''t1''\<rparr>,
       sample_booking ''b1'' ''u'' ''d1'' ''2030-01-07'' ''09:00'' Confirmed,
       sample_booking ''b1'' ''u'' ''d2'' ''2030-01-07'' ''09:00'' Pending]"
proof -
  let ?p = "sample_booking ''b1'' ''u'' ''d1'' ''2030-01-07'' ''09:00'' Pending"
  let ?c = "sample_booking ''b1'' ''u'' ''d1'' ''2030-01-07'' ''09:00'' Confirmed"
  let ?o = "sample_booking ''b1'' ''u'' ''d2'' ''2030-01-07'' ''09:00'' Pending"
  let ?db = "\<lparr>bookings = [?p, ?c, ?o], doctor_schedules = [], memberships = []\<rparr>"
  note h = approve_reject_only_pending_own[of no_faults "''t1''" "Some ''d1''" ?db "''b1''"]
  have sel: "booking_id ?p = ''b1''" "doctor_id ?p = ''d1''" "status ?p = Pending"
            "booking_id ?c = ''b1''" "doctor_id ?c = ''d1''" "status ?c = Confirmed"
            "booking_id ?o = ''b1''" "doctor_id ?o = ''d2''" "status ?o = Pending"
    by (simp_all add: sample_booking_def)
  have len: "length (bookings (approveBooking no_faults ''t1'' (Some ''d1'') ?db ''b1'')) = 3"
       "length (bookings (rejectBooking no_faults ''t1'' (Some ''d1'') ?db ''b1'')) = 3"
    using h by (simp_all add: Let_def)
  have "\<forall>i<3. bookings (approveBooking no_faults ''t1'' (Some ''d1'') ?db ''b1'') ! i
             = [?p\<lparr>status := Confirmed, updated_at := ''t1''\<rparr>, ?c, ?o] ! i"
    using h by (simp add: Let_def sel no_faults_def less_Suc_eq numeral_3_eq_3)
  moreover have "\<forall>i<3. bookings (rejectBooking no_faults ''t1'' (Some ''d1'') ?db ''b1'') ! i
             = [?p\<lparr>status := Cancelled, updated_at := ''t1''\<rparr>, ?c, ?o] ! i"
    using h by (simp add: Let_def sel no_faults_def less_Suc_eq numeral_3_eq_3)
  ultimately show ?thesis using len by (simp add: list_eq_iff_nth_eq)
qed

end
